theory Spec2Isabelle
  imports Complex_Main
begin

section \<open>ODIN evaluation script: data model\<close>

text \<open>
  The development embeds \<^verbatim>\<open>evaluation_scripts/evaluate_odin.py\<close>. Floating-point
  numbers are idealised as real numbers; the one float value that decides control flow
  (not-a-number, produced by a division 0/0 inside the metric library) is kept as a
  value of its own where the library can produce it.
\<close>

datatype error = ValueError | IndexError | InvalidArgumentError

datatype fl = NaN | Fl real

text \<open>One example is a flattened input tensor; a matrix is the list of its rows.\<close>

type_synonym tensor = "real list"
type_synonym matrix = "real list list"

text \<open>A batch is the triple \<^verbatim>\<open>(x, y, w)\<close>: inputs, labels, weights.\<close>

type_synonym batch = "tensor list \<times> int list \<times> real list"

text \<open>
  The prepared logit model (lines 56-64 of the script: built, weights restored, final
  activation stripped) maps an input batch to one row of raw scores per example.
  The reverse-mode differentiation of TensorFlow is a parameter: given the loss as a
  function of the input batch and the point, it yields the partial derivative for
  every position (example, component) of the input, or nothing when the loss is not
  connected to the input (\<^verbatim>\<open>t.gradient\<close> returns \<^verbatim>\<open>None\<close>).
\<close>

type_synonym model = "tensor list \<Rightarrow> matrix"
type_synonym gradient_tape = "(tensor list \<Rightarrow> real list) \<Rightarrow> tensor list \<Rightarrow> (nat \<Rightarrow> nat \<Rightarrow> real) option"

section \<open>Array primitives of the numeric library\<close>

text \<open>Sequencing of fallible computations: the first error wins.\<close>

fun sequence :: "(error + 'a) list \<Rightarrow> error + 'a list" where
  "sequence [] = Inr []"
| "sequence (r # rs) =
     (case r of Inl e \<Rightarrow> Inl e
      | Inr v \<Rightarrow> (case sequence rs of Inl e \<Rightarrow> Inl e | Inr vs \<Rightarrow> Inr (v # vs)))"

text \<open>
  A statement that may raise, followed by the rest of the function: an exception ends
  the function, a value is handed on.
\<close>

definition or_raise :: "error + 'a \<Rightarrow> ('a \<Rightarrow> error + 'b) \<Rightarrow> error + 'b" where
  "or_raise r k = (case r of Inl e \<Rightarrow> Inl e | Inr v \<Rightarrow> k v)"

text \<open>
  \<^verbatim>\<open>np.vstack\<close>: an empty sequence of arrays is rejected, and so are arrays whose
  rows differ in length.
\<close>

definition same_width :: "matrix \<Rightarrow> bool" where
  "same_width m = (case m of [] \<Rightarrow> True | r # rs \<Rightarrow> list_all (\<lambda>q. length q = length r) rs)"

definition np_vstack :: "matrix list \<Rightarrow> error + matrix" where
  "np_vstack ms =
     (if ms = [] then Inl ValueError
      else if same_width (concat ms) then Inr (concat ms)
      else Inl ValueError)"

text \<open>\<^verbatim>\<open>np.hstack\<close> of one-dimensional arrays: concatenation; empty input is rejected.\<close>

definition np_hstack :: "'a list list \<Rightarrow> error + 'a list" where
  "np_hstack ys = (if ys = [] then Inl ValueError else Inr (concat ys))"

text \<open>Maximum of one row; a reduction over zero elements is rejected.\<close>

definition np_max :: "real list \<Rightarrow> error + real" where
  "np_max r = (if r = [] then Inl ValueError else Inr (Max (set r)))"

text \<open>\<^verbatim>\<open>a.max(1)\<close>: the maximum of every row.\<close>

definition max1 :: "matrix \<Rightarrow> error + real list" where
  "max1 m = sequence (map np_max m)"

text \<open>Index of the first occurrence of the maximum of a row.\<close>

fun first_index :: "('a \<Rightarrow> bool) \<Rightarrow> 'a list \<Rightarrow> nat option" where
  "first_index P [] = None"
| "first_index P (x # xs) =
     (if P x then Some 0 else map_option Suc (first_index P xs))"

definition argmax_row :: "error \<Rightarrow> real list \<Rightarrow> error + int" where
  "argmax_row e r =
     (case first_index (\<lambda>v. v = Max (set r)) r of
        None \<Rightarrow> Inl e
      | Some i \<Rightarrow> Inr (int i))"

text \<open>\<^verbatim>\<open>a.argmax(1)\<close> of numpy and \<^verbatim>\<open>tf.argmax(a, axis=1)\<close> of TensorFlow.\<close>

definition argmax1 :: "matrix \<Rightarrow> error + int list" where
  "argmax1 m = sequence (map (argmax_row ValueError) m)"

definition tf_argmax :: "matrix \<Rightarrow> error + int list" where
  "tf_argmax m = sequence (map (argmax_row InvalidArgumentError) m)"

section \<open>The ODIN scorer\<close>

text \<open>
  \<^verbatim>\<open>sparse_categorical_crossentropy(labels, outputs, from_logits=True)\<close>: one loss per
  example, the log-sum-exp of its scores minus the score of its label.
\<close>

definition sparse_categorical_crossentropy :: "int list \<Rightarrow> matrix \<Rightarrow> real list" where
  "sparse_categorical_crossentropy labels outputs =
     map2 (\<lambda>l z. ln (sum_list (map exp z)) - z ! nat l) labels outputs"

text \<open>\<^verbatim>\<open>outputs / temperature\<close>, element by element.\<close>

definition scale :: "matrix \<Rightarrow> real \<Rightarrow> matrix" where
  "scale outputs temperature = map (map (\<lambda>v. v / temperature)) outputs"

text \<open>
  \<^verbatim>\<open>x - epsilon * tf.sign(gradients)\<close>: the gradient has the shape of \<open>x\<close>, so it is
  read at the position of every component of \<open>x\<close>.
\<close>

definition perturb :: "tensor list \<Rightarrow> real \<Rightarrow> (nat \<Rightarrow> nat \<Rightarrow> real) \<Rightarrow> tensor list" where
  "perturb x epsilon gradients =
     map2 (\<lambda>i row. map2 (\<lambda>j a. a - epsilon * sgn (gradients i j)) [0..<length row] row)
       [0..<length x] x"

text \<open>
  Lines 42-43: subtract the maximum of the row (\<^verbatim>\<open>np.max\<close> rejects a row of zero
  columns), exponentiate, divide by the sum of the row.
\<close>

definition softmax_row :: "real list \<Rightarrow> error + real list" where
  "softmax_row z =
     (case np_max z of Inl e \<Rightarrow> Inl e
      | Inr m \<Rightarrow>
          Inr (map (\<lambda>v. exp (v - m) / sum_list (map (\<lambda>u. exp (u - m)) z)) z))"

definition softmax :: "matrix \<Rightarrow> error + matrix" where
  "softmax outputs = sequence (map softmax_row outputs)"

text \<open>The body of the loop of \<^verbatim>\<open>ODIN\<close> (lines 25-43) for one input batch.\<close>

definition ODIN_batch :: "model \<Rightarrow> gradient_tape \<Rightarrow> real \<Rightarrow> real \<Rightarrow> tensor list \<Rightarrow> error + matrix" where
  "ODIN_batch model gradient temperature epsilon x =
     (case tf_argmax (model x) of Inl e \<Rightarrow> Inl e
      | Inr maxIndexTemp \<Rightarrow>
          (case gradient (\<lambda>x'. sparse_categorical_crossentropy maxIndexTemp
                                 (scale (model x') temperature)) x of
             None \<Rightarrow> Inl ValueError
           | Some gradients \<Rightarrow>
               softmax (scale (model (perturb x epsilon gradients)) temperature)))"

text \<open>The loop over the batches, with the accumulator \<^verbatim>\<open>ots\<close>; labels and weights are dropped.\<close>

fun ODIN_loop :: "model \<Rightarrow> gradient_tape \<Rightarrow> real \<Rightarrow> real \<Rightarrow> batch list \<Rightarrow> matrix list \<Rightarrow> error + matrix list" where
  "ODIN_loop model gradient temperature epsilon [] ots = Inr ots"
| "ODIN_loop model gradient temperature epsilon ((x, _, _) # ds) ots =
     (case ODIN_batch model gradient temperature epsilon x of
        Inl e \<Rightarrow> Inl e
      | Inr outputs \<Rightarrow> ODIN_loop model gradient temperature epsilon ds (ots @ [outputs]))"

definition ODIN :: "batch list \<Rightarrow> model \<Rightarrow> gradient_tape \<Rightarrow> real \<Rightarrow> real \<Rightarrow> error + matrix" where
  "ODIN ds model gradient temperature epsilon =
     (case ODIN_loop model gradient temperature epsilon ds [] of
        Inl e \<Rightarrow> Inl e
      | Inr ots \<Rightarrow> np_vstack ots)"

section \<open>Metrics of the numeric and learning libraries\<close>

text \<open>Arithmetic and comparison with not-a-number: every comparison with it is false.\<close>

fun one_minus :: "fl \<Rightarrow> fl" where
  "one_minus NaN = NaN"
| "one_minus (Fl v) = Fl (1 - v)"

fun fl_ge :: "fl \<Rightarrow> real \<Rightarrow> bool" where
  "fl_ge NaN c = False"
| "fl_ge (Fl v) c = (c \<le> v)"

fun fl_lt :: "fl \<Rightarrow> fl \<Rightarrow> bool" where
  "fl_lt (Fl a) (Fl b) = (a < b)"
| "fl_lt _ _ = False"

text \<open>
  \<^verbatim>\<open>metrics.accuracy_score\<close>: the fraction of positions where the two label vectors
  agree; vectors of different lengths are rejected, and the mean over no position is
  not-a-number.
\<close>

definition accuracy_score :: "int list \<Rightarrow> int list \<Rightarrow> error + fl" where
  "accuracy_score y_true y_pred =
     (if length y_true \<noteq> length y_pred then Inl ValueError
      else if y_true = [] then Inr NaN
      else Inr (Fl (real (length (filter (\<lambda>(a, b). a = b) (zip y_true y_pred)))
                    / real (length y_true))))"

text \<open>
  \<^verbatim>\<open>np.percentile(a, q)\<close> with the default linear interpolation between the two
  closest ranks of the sorted data. A percentage outside [0, 100] is rejected, and on
  an empty array the read of the last element of the sorted data fails.
\<close>

definition np_percentile :: "real list \<Rightarrow> real \<Rightarrow> error + real" where
  "np_percentile a q =
     (if q < 0 \<or> 100 < q then Inl ValueError
      else if a = [] then Inl IndexError
      else
        (let s = sort a;
             pos = q / 100 * real (length a - 1);
             lo = nat \<lfloor>pos\<rfloor>;
             hi = min (lo + 1) (length a - 1)
         in Inr (s ! lo + (pos - real lo) * (s ! hi - s ! lo))))"

text \<open>\<^verbatim>\<open>np.unique\<close>: the sorted distinct values.\<close>

definition np_unique :: "int list \<Rightarrow> int list" where
  "np_unique y = remdups (sort y)"

text \<open>
  \<^verbatim>\<open>_binary_clf_curve\<close>: the samples are ordered by decreasing score (a stable
  ascending sort, reversed); at the last index of every run of equal scores the
  positives and the negatives seen so far are counted.
\<close>

definition binary_clf_curve :: "bool list \<Rightarrow> real list \<Rightarrow> nat list \<times> nat list" where
  "binary_clf_curve y_true y_score =
     (let desc = rev (sort_key snd (zip y_true y_score));
          ys = map fst desc;
          sc = map snd desc;
          distinct_value_indices = filter (\<lambda>i. sc ! i \<noteq> sc ! (i + 1)) [0..<length sc - 1];
          threshold_idxs = distinct_value_indices @ [length ys - 1];
          tps = map (\<lambda>i. length (filter id (take (i + 1) ys))) threshold_idxs;
          fps = map2 (\<lambda>i t. 1 + i - t) threshold_idxs tps
      in (fps, tps))"

text \<open>
  \<^verbatim>\<open>drop_intermediate\<close>: of more than two points, the first, the last and those where
  the second difference of either count is not zero are kept.
\<close>

definition second_diff :: "nat list \<Rightarrow> nat \<Rightarrow> int" where
  "second_diff v i = int (v ! (i + 2)) - 2 * int (v ! (i + 1)) + int (v ! i)"

definition optimal_idxs :: "nat list \<Rightarrow> nat list \<Rightarrow> nat list" where
  "optimal_idxs fps tps =
     filter (\<lambda>i. i = 0 \<or> i = length fps - 1
                 \<or> second_diff fps (i - 1) \<noteq> 0 \<or> second_diff tps (i - 1) \<noteq> 0)
       [0..<length fps]"

text \<open>The counts of the curve, with the point (0, 0) put in front.\<close>

definition roc_counts :: "bool list \<Rightarrow> real list \<Rightarrow> nat list \<times> nat list" where
  "roc_counts y_true y_score =
     (case binary_clf_curve y_true y_score of
        (fps, tps) \<Rightarrow>
          (let keep = (if 2 < length fps then optimal_idxs fps tps else [0..<length fps])
           in (0 # map (\<lambda>i. fps ! i) keep, 0 # map (\<lambda>i. tps ! i) keep)))"

text \<open>Counts divided by the last count; when that is zero every rate is not-a-number.\<close>

definition rates :: "nat list \<Rightarrow> fl list" where
  "rates c =
     (if last c \<le> 0 then replicate (length c) NaN
      else map (\<lambda>v. Fl (real v / real (last c))) c)"

text \<open>
  \<^verbatim>\<open>metrics.roc_curve(y_true, y_score)\<close>: false-positive and true-positive rates by
  decreasing threshold. Without an explicit positive label the labels have to be drawn
  from {0, 1} or {-1, 1}, and 1 is the positive one. The third component of the
  library's result, the thresholds, is never read by the script and is left out.
\<close>

definition roc_curve :: "int list \<Rightarrow> real list \<Rightarrow> error + (fl list \<times> fl list)" where
  "roc_curve y_true y_score =
     (if length y_true \<noteq> length y_score then Inl ValueError
      else if np_unique y_true \<notin> set [[0, 1], [-1, 1], [0], [-1], [1]] then Inl ValueError
      else
        (case roc_counts (map (\<lambda>v. v = 1) y_true) y_score of
           (fps, tps) \<Rightarrow> Inr (rates fps, rates tps)))"

text \<open>\<^verbatim>\<open>metrics.auc\<close>: the area under the points by the trapezoidal rule.\<close>

definition metrics_auc :: "real list \<Rightarrow> real list \<Rightarrow> real" where
  "metrics_auc x y =
     sum_list (map (\<lambda>i. (x ! (i + 1) - x ! i) * (y ! (i + 1) + y ! i) / 2) [0..<length x - 1])"

text \<open>
  \<^verbatim>\<open>metrics.roc_auc_score(y_true, y_score)\<close>: defined only when exactly two classes are
  present, the greater of which is the positive one; then both counts end above zero
  and the rates are numbers.
\<close>

definition roc_auc_score :: "int list \<Rightarrow> real list \<Rightarrow> error + real" where
  "roc_auc_score y_true y_score =
     (if length y_true \<noteq> length y_score then Inl ValueError
      else if length (np_unique y_true) \<noteq> 2 then Inl ValueError
      else
        (case roc_counts (map (\<lambda>v. v = last (np_unique y_true)) y_true) y_score of
           (fps, tps) \<Rightarrow>
             Inr (metrics_auc (map (\<lambda>v. real v / real (last fps)) fps)
                              (map (\<lambda>v. real v / real (last tps)) tps))))"

section \<open>False-positive rate at 95% true-positive rate\<close>

definition fpr95 :: "int list \<Rightarrow> real list \<Rightarrow> error + fl" where
  "fpr95 y_true y_pred =
     (case roc_curve y_true y_pred of
        Inl e \<Rightarrow> Inl e
      | Inr (fpr, tpr) \<Rightarrow>
          (case first_index (\<lambda>t. fl_ge t (95 / 100)) tpr of
             None \<Rightarrow> Inl IndexError
           | Some ix \<Rightarrow> Inr (fpr ! ix)))"

text \<open>The same computation with the target rate as a parameter, to compare targets.\<close>

definition fpr_at_tpr :: "real \<Rightarrow> int list \<Rightarrow> real list \<Rightarrow> error + fl" where
  "fpr_at_tpr target y_true y_pred =
     (case roc_curve y_true y_pred of
        Inl e \<Rightarrow> Inl e
      | Inr (fpr, tpr) \<Rightarrow>
          (case first_index (\<lambda>t. fl_ge t target) tpr of
             None \<Rightarrow> Inl IndexError
           | Some ix \<Rightarrow> Inr (fpr ! ix)))"

section \<open>The metric aggregator\<close>

text \<open>
  Modelled from the spec: the loaded dataset of \<^verbatim>\<open>datasets.make_datasets\<close>, which is not
  part of the script. It is an iterable that produces a finite sequence of batches per
  pass and need not produce the same sequence when it is iterated again. The iterable
  is the stream of its passes: \<open>it k\<close> are the batches handed out by pass \<open>k\<close>. A
  restartable dataset is a constant stream; a one-shot iterable hands out nothing
  after its first pass.
\<close>

type_synonym iterable = "nat \<Rightarrow> batch list"

definition iterate :: "iterable \<Rightarrow> batch list \<times> iterable" where
  "iterate it = (it 0, \<lambda>k. it (Suc k))"

definition restartable :: "batch list \<Rightarrow> iterable" where
  "restartable bs = (\<lambda>k. bs)"

definition one_shot :: "batch list \<Rightarrow> iterable" where
  "one_shot bs = (\<lambda>k. if k = 0 then bs else [])"

text \<open>
  Line 85, \<^verbatim>\<open>(pred > threshold).any(1).astype(int)\<close>: 1 for a row with an entry above
  the threshold.
\<close>

definition any_above :: "real \<Rightarrow> matrix \<Rightarrow> int list" where
  "any_above threshold pred =
     map (\<lambda>row. if list_ex (\<lambda>p. threshold < p) row then 1 else 0) pred"

text \<open>Line 97, \<^verbatim>\<open>y_true != pred_ds.argmax(1)\<close>, as the labels 0 and 1.\<close>

definition not_equal :: "int list \<Rightarrow> int list \<Rightarrow> int list" where
  "not_equal a b = map2 (\<lambda>u v. if u \<noteq> v then 1 else 0) a b"

text \<open>Lines 100-103: the guarded area computation.\<close>

definition guarded_auc :: "int list \<Rightarrow> real list \<Rightarrow> error + fl" where
  "guarded_auc erroneous_prediction anomaly_score =
     (case roc_auc_score erroneous_prediction anomaly_score of
        Inl ValueError \<Rightarrow> Inr (Fl (- 123456789))
      | Inl e \<Rightarrow> Inl e
      | Inr a \<Rightarrow> Inr (Fl a))"

text \<open>
  Lines 75-110 of \<^verbatim>\<open>odin_results\<close>: the metrics from the two confidence matrices and
  the ground-truth labels, stored in \<^verbatim>\<open>result_collection\<close> in the order of the script.
\<close>

definition odin_metrics :: "matrix \<Rightarrow> matrix \<Rightarrow> int list \<Rightarrow> error + (string \<rightharpoonup> fl)" where
  "odin_metrics pred_ds pred_ood y_true =
     or_raise (argmax1 pred_ds) (\<lambda>am.
     or_raise (accuracy_score y_true am) (\<lambda>acc.
     or_raise (np_vstack [pred_ood, pred_ds]) (\<lambda>pred.
     or_raise (max1 pred_ds) (\<lambda>anomaly_score.
     or_raise (np_percentile anomaly_score 5) (\<lambda>threshold.
     let ood_labels = replicate (length pred_ood) 0 @ replicate (length pred_ds) 1 in
     or_raise (accuracy_score ood_labels (any_above threshold pred)) (\<lambda>acc2.
     or_raise (max1 pred) (\<lambda>p.
     or_raise (roc_auc_score ood_labels p) (\<lambda>ood_auc.
     or_raise (guarded_auc (not_equal y_true am) anomaly_score) (\<lambda>auc.
     or_raise (fpr95 ood_labels p) (\<lambda>fpr.
       Inr (Map.empty
         (''classification error'' \<mapsto> one_minus acc,
          ''threshold_ood'' \<mapsto> Fl threshold,
          ''OOD error'' \<mapsto> one_minus acc2,
          ''OOD AUC'' \<mapsto> Fl ood_auc,
          ''AUC anomaly score and misclassification'' \<mapsto> auc,
          ''FPR at 95% TPR'' \<mapsto> fpr))))))))))))"

text \<open>
  \<^verbatim>\<open>odin_results\<close> from line 68 on, for the prepared model: the scorer makes one pass
  over either loaded dataset (temperature 2, epsilon 0.3), then line 74 iterates the
  loaded in-distribution dataset once more for the labels.
\<close>

definition odin_results :: "iterable \<Rightarrow> iterable \<Rightarrow> model \<Rightarrow> gradient_tape \<Rightarrow> error + (string \<rightharpoonup> fl)" where
  "odin_results ds ood model gradient =
     (case iterate ds of (ds_pass, ds') \<Rightarrow>
      or_raise (ODIN ds_pass model gradient 2 (3 / 10)) (\<lambda>pred_ds.
      case iterate ood of (ood_pass, ood') \<Rightarrow>
      or_raise (ODIN ood_pass model gradient 2 (3 / 10)) (\<lambda>pred_ood.
      case iterate ds' of (label_pass, ds'') \<Rightarrow>
      or_raise (np_hstack (map (\<lambda>(x, y, w). y) label_pass)) (\<lambda>y_true.
        odin_metrics pred_ds pred_ood y_true))))"

section \<open>Reference notions the script is compared with\<close>

text \<open>
  The temperature-scaled softmax of the model's scores on the unperturbed inputs of
  every batch, stacked in batch order.
\<close>

definition temperature_softmax :: "batch list \<Rightarrow> model \<Rightarrow> real \<Rightarrow> error + matrix" where
  "temperature_softmax ds model temperature =
     (case sequence (map (\<lambda>(x, y, w). softmax (scale (model x) temperature)) ds) of
        Inl e \<Rightarrow> Inl e
      | Inr ots \<Rightarrow> np_vstack ots)"

text \<open>
  Index \<open>ix\<close> is the first point of a curve, in the order of the curve, whose
  true-positive rate reaches the target.
\<close>

definition first_reaching :: "fl list \<Rightarrow> real \<Rightarrow> nat \<Rightarrow> bool" where
  "first_reaching tpr target ix \<longleftrightarrow>
     ix < length tpr \<and> fl_ge (tpr ! ix) target \<and> (\<forall>j<ix. \<not> fl_ge (tpr ! j) target)"

text \<open>The domain labels of the stacked matrix: 0 for every out-of-distribution row,
  then 1 for every in-distribution row (line 80).\<close>

definition domain_labels :: "matrix \<Rightarrow> matrix \<Rightarrow> int list" where
  "domain_labels pred_ood pred_ds = replicate (length pred_ood) 0 @ replicate (length pred_ds) 1"

text \<open>The number of examples of a dataset pass.\<close>

definition example_count :: "batch list \<Rightarrow> nat" where
  "example_count ds = sum_list (map (\<lambda>(x, y, w). length x) ds)"

text \<open>The five metric names of the specification, and the names the script stores.\<close>

definition spec_keys :: "string set" where
  "spec_keys = {''classification error'', ''OOD error'', ''OOD AUC'',
     ''AUC anomaly score and misclassification'', ''FPR at 95% TPR''}"

definition stored_keys :: "string set" where
  "stored_keys = insert ''threshold_ood'' spec_keys"

section \<open>Example inputs\<close>

text \<open>
  A model with two classes whose first score is the sum of the input components, and
  a gradient tape that reports the derivative 1 at every position, so that the scorer
  moves every component down by epsilon.
\<close>

definition linear_model :: model where
  "linear_model x = map (\<lambda>t. [sum_list t, 0]) x"

definition unit_gradient :: gradient_tape where
  "unit_gradient loss x = Some (\<lambda>i j. 1)"

text \<open>Two passes with the same inputs and different labels and weights.\<close>

definition pass_a :: "batch list" where
  "pass_a = [([[0], [2 * ln 3]], [0, 1], [1, 1])]"

definition pass_b :: "batch list" where
  "pass_b = [([[0], [2 * ln 3]], [7, 7], [0, 5])]"

text \<open>
  An in-distribution pass of two batches and three examples, and an out-of-distribution
  pass of one example.
\<close>

definition ds_pass :: "batch list" where
  "ds_pass = [([[2 * ln 3 + 3 / 10], [3 / 10 - 2 * ln 2]], [0, 1], [1, 1]),
              ([[2 * ln 3 + 3 / 10]], [0], [1])]"

definition ood_pass :: "batch list" where
  "ood_pass = [([[3 / 10]], [5], [1])]"

text \<open>The confidence matrices of the two example passes, and the result of the
  evaluation on them.\<close>

definition pred_ds_ex :: matrix where
  "pred_ds_ex = [[3 / 4, 1 / 4], [1 / 3, 2 / 3], [3 / 4, 1 / 4]]"

definition pred_ood_ex :: matrix where
  "pred_ood_ex = [[1 / 2, 1 / 2]]"

definition expected_result :: "string \<rightharpoonup> fl" where
  "expected_result = Map.empty
         (''classification error'' \<mapsto> Fl 0,
          ''threshold_ood'' \<mapsto> Fl (27 / 40),
          ''OOD error'' \<mapsto> Fl (1 / 4),
          ''OOD AUC'' \<mapsto> Fl 1,
          ''AUC anomaly score and misclassification'' \<mapsto> Fl (- 123456789),
          ''FPR at 95% TPR'' \<mapsto> Fl 0)"

text \<open>Four scored samples with both classes, and three samples without a positive one.\<close>

definition four_labels :: "int list" where
  "four_labels = [0, 0, 1, 1]"

definition four_scores :: "real list" where
  "four_scores = [1 / 10, 4 / 10, 35 / 100, 8 / 10]"

definition three_labels :: "int list" where
  "three_labels = [0, 0, 0]"

definition three_scores :: "real list" where
  "three_scores = [1 / 10, 4 / 10, 35 / 100]"

section \<open>Properties of the primitives\<close>

lemma or_raise_Inr_iff:
  "or_raise r k = Inr v \<longleftrightarrow> (\<exists>u. r = Inr u \<and> k u = Inr v)"
  by (cases r) (simp_all add: or_raise_def)

lemma sequence_map_Inr: "sequence (map Inr vs) = Inr vs"
  by (induction vs) simp_all

lemma sequence_Inr_D: "sequence rs = Inr vs \<Longrightarrow> rs = map Inr vs"
proof (induction rs arbitrary: vs)
  case Nil
  then show ?case by simp
next
  case (Cons r rs)
  from Cons.prems obtain v ws where r: "r = Inr v" and ws: "sequence rs = Inr ws" and vs: "vs = v # ws"
    by (auto split: sum.splits)
  from Cons.IH [OF ws] r vs show ?case by simp
qed

lemma sequence_Inr_iff:
  "sequence rs = Inr vs \<longleftrightarrow> rs = map Inr vs"
  using sequence_Inr_D sequence_map_Inr by blast

lemma sequence_length: "sequence rs = Inr vs \<Longrightarrow> length vs = length rs"
  by (simp add: sequence_Inr_iff)

subsection \<open>The scorer as a sequence of batch results\<close>

lemma ODIN_loop_sequence:
  "ODIN_loop model gradient temperature epsilon ds ots =
     (case sequence (map (\<lambda>b. ODIN_batch model gradient temperature epsilon (fst b)) ds) of
        Inl e \<Rightarrow> Inl e
      | Inr os \<Rightarrow> Inr (ots @ os))"
proof (induction ds arbitrary: ots)
  case Nil
  show ?case by simp
next
  case (Cons b ds)
  obtain x y w where b: "b = (x, y, w)" by (cases b) auto
  show ?case
    by (cases "ODIN_batch model gradient temperature epsilon x")
       (simp_all add: b Cons.IH split: sum.splits)
qed

lemma ODIN_sequence:
  "ODIN ds model gradient temperature epsilon =
     or_raise (sequence (map (\<lambda>b. ODIN_batch model gradient temperature epsilon (fst b)) ds)) np_vstack"
  by (simp add: ODIN_def ODIN_loop_sequence or_raise_def split: sum.splits)

lemma map_snd_zip_upt: "map (\<lambda>p. f (snd p)) (zip [0..<length xs] xs) = map f xs"
proof -
  have "map f (map snd (zip [0..<length xs] xs)) = map f xs"
    by simp
  then show ?thesis
    by (simp only: map_map comp_def)
qed

lemma perturb_zero: "perturb x 0 gradients = x"
proof -
  have row: "map (\<lambda>p. snd p) (zip [0..<length r] r) = r" for r :: "real list"
    using map_snd_zip_upt [where f = "\<lambda>a. a" and xs = r] by simp
  have "perturb x 0 gradients = map (\<lambda>p. snd p) (zip [0..<length x] x)"
    by (simp add: perturb_def case_prod_unfold row)
  also have "\<dots> = x"
    using map_snd_zip_upt [where f = "\<lambda>a. a" and xs = x] by simp
  finally show ?thesis .
qed

lemma length_perturb: "length (perturb x epsilon gradients) = length x"
  by (simp add: perturb_def)

subsection \<open>Softmax rows\<close>

lemma sum_list_divide: "sum_list (map (\<lambda>v. f v / c) xs) = sum_list (map f xs) / (c :: real)"
  by (induction xs) (simp_all add: add_divide_distrib)

lemma sum_list_exp_pos:
  assumes "z \<noteq> []"
  shows "0 < sum_list (map (\<lambda>u. exp (u - m :: real)) z)"
proof -
  from assms obtain a z' where z: "z = a # z'" by (cases z) auto
  have "0 \<le> sum_list (map (\<lambda>u. exp (u - m)) z')"
    by (rule sum_list_nonneg) auto
  moreover have "0 < exp (a - m)" by simp
  ultimately show ?thesis by (simp add: z add_pos_nonneg)
qed

lemma softmax_row_Inr:
  assumes "softmax_row z = Inr r"
  shows "z \<noteq> []" and "length r = length z" and "\<forall>p\<in>set r. 0 \<le> p" and "sum_list r = 1"
proof -
  show nz: "z \<noteq> []"
    using assms by (auto simp: softmax_row_def np_max_def split: if_splits)
  define m where "m = Max (set z)"
  define S where "S = sum_list (map (\<lambda>u. exp (u - m)) z)"
  have r: "r = map (\<lambda>v. exp (v - m) / S) z"
    using assms nz by (simp add: softmax_row_def np_max_def m_def S_def)
  have S: "0 < S" unfolding S_def by (rule sum_list_exp_pos [OF nz])
  show "length r = length z" by (simp add: r)
  show "\<forall>p\<in>set r. 0 \<le> p" using S by (auto simp: r)
  have "sum_list r = S / S" unfolding r by (simp add: sum_list_divide S_def)
  then show "sum_list r = 1" using S by simp
qed

lemma softmax_Inr:
  assumes "softmax outputs = Inr m"
  shows "length m = length outputs"
    and "\<forall>row\<in>set m. (\<forall>p\<in>set row. 0 \<le> p) \<and> sum_list row = 1"
    and "\<forall>z\<in>set outputs. z \<noteq> []"
proof -
  have eq: "map softmax_row outputs = map Inr m"
    using assms by (simp add: softmax_def sequence_Inr_iff)
  then show len: "length m = length outputs"
    by (metis length_map)
  have nth: "softmax_row (outputs ! i) = Inr (m ! i)" if "i < length outputs" for i
    using that eq len by (metis nth_map)
  show "\<forall>row\<in>set m. (\<forall>p\<in>set row. 0 \<le> p) \<and> sum_list row = 1"
  proof
    fix row assume "row \<in> set m"
    then obtain i where "i < length m" "row = m ! i" by (auto simp: in_set_conv_nth)
    with nth len have "softmax_row (outputs ! i) = Inr row" by simp
    then show "(\<forall>p\<in>set row. 0 \<le> p) \<and> sum_list row = 1"
      using softmax_row_Inr(3,4) by blast
  qed
  show "\<forall>z\<in>set outputs. z \<noteq> []"
  proof
    fix z assume "z \<in> set outputs"
    then obtain i where "i < length outputs" "z = outputs ! i" by (auto simp: in_set_conv_nth)
    with nth have "softmax_row z = Inr (m ! i)" by simp
    then show "z \<noteq> []" by (rule softmax_row_Inr(1))
  qed
qed

lemma ODIN_batch_Inr:
  assumes "ODIN_batch model gradient temperature epsilon x = Inr m"
  shows "\<exists>g. softmax (scale (model (perturb x epsilon g)) temperature) = Inr m"
  using assms by (auto simp: ODIN_batch_def split: sum.splits option.splits)

lemma np_vstack_Inr: "np_vstack ms = Inr m \<Longrightarrow> m = concat ms \<and> ms \<noteq> []"
  by (auto simp: np_vstack_def split: if_splits)

lemma ODIN_Inr:
  assumes "ODIN ds model gradient temperature epsilon = Inr m"
  shows "\<exists>os. map (\<lambda>b. ODIN_batch model gradient temperature epsilon (fst b)) ds = map Inr os
     \<and> m = concat os"
  using assms
  by (auto simp: ODIN_sequence or_raise_Inr_iff sequence_Inr_iff dest: np_vstack_Inr)

subsection \<open>First indices and argmax\<close>

lemma first_index_None_iff: "first_index P xs = None \<longleftrightarrow> (\<forall>x\<in>set xs. \<not> P x)"
  by (induction xs) auto

lemma argmax_row_nonempty:
  assumes "r \<noteq> []"
  shows "\<exists>i. argmax_row e r = Inr i"
proof -
  have "Max (set r) \<in> set r" using assms by (intro Max_in) auto
  then have "first_index (\<lambda>v. v = Max (set r)) r \<noteq> None"
    by (auto simp: first_index_None_iff)
  then show ?thesis by (auto simp: argmax_row_def)
qed

lemma sequence_all_Inr:
  assumes "\<forall>r\<in>set rs. \<exists>v. r = Inr v"
  shows "\<exists>vs. sequence rs = Inr vs"
  using assms by (induction rs) auto

lemma tf_argmax_nonempty:
  assumes "\<forall>z\<in>set outputs. z \<noteq> []"
  shows "\<exists>labels. tf_argmax outputs = Inr labels"
  unfolding tf_argmax_def
  by (rule sequence_all_Inr) (use assms argmax_row_nonempty in auto)

subsection \<open>The batch step at epsilon 0\<close>

lemma ODIN_batch_zero_forward:
  assumes "ODIN_batch model gradient temperature 0 x = Inr v"
  shows "softmax (scale (model x) temperature) = Inr v"
  using assms by (auto simp: ODIN_batch_def perturb_zero split: sum.splits option.splits)

lemma ODIN_batch_zero_backward:
  assumes s: "softmax (scale (model x) temperature) = Inr v"
    and g: "\<forall>labels. tf_argmax (model x) = Inr labels \<longrightarrow>
      gradient (\<lambda>x'. sparse_categorical_crossentropy labels (scale (model x') temperature)) x \<noteq> None"
  shows "ODIN_batch model gradient temperature 0 x = Inr v"
proof -
  have "\<forall>z\<in>set (scale (model x) temperature). z \<noteq> []"
    by (rule softmax_Inr(3) [OF s])
  then have "\<forall>z\<in>set (model x). z \<noteq> []"
    by (auto simp: scale_def)
  from tf_argmax_nonempty [OF this] obtain labels where l: "tf_argmax (model x) = Inr labels"
    by blast
  with g obtain gr where
    "gradient (\<lambda>x'. sparse_categorical_crossentropy labels (scale (model x') temperature)) x = Some gr"
    by auto
  with l s show ?thesis
    by (simp add: ODIN_batch_def perturb_zero)
qed

lemma temperature_softmax_sequence:
  "temperature_softmax ds model temperature =
     or_raise (sequence (map (\<lambda>b. softmax (scale (model (fst b)) temperature)) ds)) np_vstack"
  by (simp add: temperature_softmax_def or_raise_def case_prod_unfold split: sum.splits)

lemma map_Inr_cong:
  assumes "\<forall>b\<in>set ds. \<forall>v. f b = Inr v \<longleftrightarrow> g b = Inr v"
  shows "map f ds = map Inr os \<longleftrightarrow> map g ds = map Inr os"
  using assms by (induction ds arbitrary: os) (auto simp: Cons_eq_map_conv)

subsection \<open>The scorer on the example passes\<close>

lemma exp_minus_ln3: "exp (- ln 3 :: real) = 1 / 3"
  by (simp add: exp_minus)

lemma exp_minus_ln2: "exp (- ln 2 :: real) = 1 / 2"
  by (simp add: exp_minus)

lemmas scorer_defs =
  ODIN_def ODIN_batch_def linear_model_def unit_gradient_def tf_argmax_def argmax_row_def
  softmax_def softmax_row_def np_max_def scale_def perturb_def np_vstack_def same_width_def
  temperature_softmax_def

lemma ODIN_ds_pass:
  "ODIN ds_pass linear_model unit_gradient 2 (3 / 10) = Inr [[3 / 4, 1 / 4], [1 / 3, 2 / 3], [3 / 4, 1 / 4]]"
  by (simp add: exp_minus_ln3 exp_minus_ln2 scorer_defs ds_pass_def)

lemma ODIN_ood_pass:
  "ODIN ood_pass linear_model unit_gradient 2 (3 / 10) = Inr [[1 / 2, 1 / 2]]"
  by (simp add: scorer_defs ood_pass_def)

subsection \<open>The curve: counts, order and rates\<close>

lemma first_index_Some_iff:
  "first_index P xs = Some i \<longleftrightarrow> i < length xs \<and> P (xs ! i) \<and> (\<forall>j<i. \<not> P (xs ! j))"
proof (induction xs arbitrary: i)
  case Nil
  show ?case by simp
next
  case (Cons x xs)
  show ?case
  proof (cases "P x")
    case True
    then show ?thesis by (cases i) auto
  next
    case False
    show ?thesis
    proof (cases i)
      case 0
      with False show ?thesis by auto
    next
      case (Suc k)
      have "(\<forall>j<Suc k. \<not> P ((x # xs) ! j)) \<longleftrightarrow> (\<forall>j<k. \<not> P (xs ! j))"
        using False by (auto simp: less_Suc_eq_0_disj)
      with False Suc Cons.IH [of k] show ?thesis by auto
    qed
  qed
qed

lemma roc_curve_four:
  "roc_curve four_labels four_scores
   = Inr ([Fl 0, Fl 0, Fl (1 / 2), Fl (1 / 2), Fl 1], [Fl 0, Fl (1 / 2), Fl (1 / 2), Fl 1, Fl 1])"
  by code_simp

lemma roc_curve_three:
  "roc_curve three_labels three_scores = Inr ([Fl 0, Fl (1 / 3), Fl 1], [NaN, NaN, NaN])"
  by code_simp

lemma count_take_mono:
  assumes "i \<le> j"
  shows "1 + i - length (filter P (take (i + 1) ys)) \<le> 1 + j - length (filter P (take (j + 1) ys))"
proof -
  obtain k where j: "j = i + k" using assms by (auto simp: le_iff_add)
  have "take (Suc i + k) ys = take (Suc i) ys @ take k (drop (Suc i) ys)"
    by (rule take_add)
  then have "take (j + 1) ys = take (i + 1) ys @ take k (drop (i + 1) ys)"
    by (simp add: j)
  then have "length (filter P (take (j + 1) ys))
      = length (filter P (take (i + 1) ys)) + length (filter P (take k (drop (i + 1) ys)))"
    by simp
  moreover have "length (filter P (take k (drop (i + 1) ys))) \<le> k"
    by (rule order_trans [OF length_filter_le]) simp
  moreover have "length (filter P (take (i + 1) ys)) \<le> i + 1"
    by (rule order_trans [OF length_filter_le]) simp
  ultimately show ?thesis using j by linarith
qed

lemma sorted_map_mono:
  assumes "sorted is" and "\<And>i j. i \<le> j \<Longrightarrow> h i \<le> (h j :: nat)"
  shows "sorted (map h (is :: nat list))"
  using assms by (induction "is") auto

lemma sorted_map_nth:
  assumes "sorted xs" and "sorted is" and "\<forall>i\<in>set is. i < length xs"
  shows "sorted (map (\<lambda>i. xs ! i) is)"
  using assms(2,3)
proof (induction "is")
  case Nil
  show ?case by simp
next
  case (Cons i "is")
  then have "\<forall>j\<in>set is. xs ! i \<le> xs ! j"
    using assms(1) by (auto intro: sorted_nth_mono)
  with Cons show ?case by auto
qed

lemma map2_map_same: "map2 f xs (map g xs) = map (\<lambda>x. f x (g x)) xs"
  by (induction xs) auto

lemma binary_clf_curve_eq:
  "binary_clf_curve y_true y_score =
     (let ys = map fst (rev (sort_key snd (zip y_true y_score)));
          sc = map snd (rev (sort_key snd (zip y_true y_score)));
          threshold_idxs = filter (\<lambda>i. sc ! i \<noteq> sc ! (i + 1)) [0..<length sc - 1] @ [length ys - 1]
      in (map (\<lambda>i. 1 + i - length (filter id (take (i + 1) ys))) threshold_idxs,
          map (\<lambda>i. length (filter id (take (i + 1) ys))) threshold_idxs))"
  by (simp add: binary_clf_curve_def Let_def map2_map_same)

lemma sorted_filter_upt: "sorted (filter P [m..<n])"
  by (rule sorted_wrt_filter) simp

lemma sorted_threshold_idxs: "sorted (filter P [0..<n - 1] @ [n - 1 :: nat])"
  by (auto simp: sorted_append sorted_filter_upt)

lemma binary_clf_curve_props:
  assumes "binary_clf_curve y_true y_score = (fps, tps)"
  shows "sorted fps" and "length fps = length tps" and "fps \<noteq> []"
proof -
  define ys where "ys = map fst (rev (sort_key snd (zip y_true y_score)))"
  define sc where "sc = map snd (rev (sort_key snd (zip y_true y_score)))"
  define idxs where "idxs = filter (\<lambda>i. sc ! i \<noteq> sc ! (i + 1)) [0..<length sc - 1] @ [length ys - 1]"
  have len: "length sc = length ys" by (simp add: sc_def ys_def)
  have fps: "fps = map (\<lambda>i. 1 + i - length (filter id (take (i + 1) ys))) idxs"
    and tps: "tps = map (\<lambda>i. length (filter id (take (i + 1) ys))) idxs"
    using assms by (simp_all add: binary_clf_curve_eq Let_def ys_def sc_def idxs_def)
  have "sorted idxs" unfolding idxs_def len by (rule sorted_threshold_idxs)
  then show "sorted fps" unfolding fps
    by (rule sorted_map_mono) (rule count_take_mono)
  show "length fps = length tps" by (simp add: fps tps)
  show "fps \<noteq> []" by (simp add: fps idxs_def)
qed

lemma optimal_idxs_props:
  "sorted (optimal_idxs fps tps)" "\<forall>i\<in>set (optimal_idxs fps tps). i < length fps"
  by (auto simp: optimal_idxs_def sorted_filter_upt)

lemma roc_counts_props:
  assumes "roc_counts y_true y_score = (fps, tps)"
  shows "sorted fps" and "length fps = length tps"
proof -
  obtain fps0 tps0 where b: "binary_clf_curve y_true y_score = (fps0, tps0)"
    by (cases "binary_clf_curve y_true y_score") auto
  define keep where "keep = (if 2 < length fps0 then optimal_idxs fps0 tps0 else [0..<length fps0])"
  have fps: "fps = 0 # map (\<lambda>i. fps0 ! i) keep" and tps: "tps = 0 # map (\<lambda>i. tps0 ! i) keep"
    using assms by (simp_all add: roc_counts_def b keep_def Let_def)
  have k: "sorted keep" "\<forall>i\<in>set keep. i < length fps0"
    by (auto simp: keep_def optimal_idxs_props)
  have "sorted (map (\<lambda>i. fps0 ! i) keep)"
    by (rule sorted_map_nth [OF binary_clf_curve_props(1) [OF b] k])
  then show "sorted fps" by (simp add: fps)
  show "length fps = length tps" by (simp add: fps tps)
qed

lemma rates_length: "length (rates c) = length c"
  by (simp add: rates_def)

lemma rates_mono:
  assumes "sorted c" and "i \<le> j" and "j < length c"
  shows "rates c ! i = rates c ! j \<or> fl_lt (rates c ! i) (rates c ! j)"
proof (cases "last c \<le> 0")
  case True
  with assms show ?thesis by (simp add: rates_def)
next
  case False
  from assms have le: "c ! i \<le> c ! j" by (simp add: sorted_nth_mono)
  have "real (c ! i) / real (last c) \<le> real (c ! j) / real (last c)"
    using le False by (simp add: divide_right_mono)
  with False assms show ?thesis by (auto simp: rates_def)
qed

lemma roc_curve_Inr:
  assumes "roc_curve y_true y_score = Inr (fpr, tpr)"
  shows "\<exists>fps tps. roc_counts (map (\<lambda>v. v = 1) y_true) y_score = (fps, tps)
      \<and> fpr = rates fps \<and> tpr = rates tps"
  using assms by (auto simp: roc_curve_def split: if_splits prod.splits)

lemma fpr95_fpr_at_tpr: "fpr95 y_true y_pred = fpr_at_tpr (95 / 100) y_true y_pred"
  unfolding fpr95_def fpr_at_tpr_def ..

subsection \<open>The aggregator on the example matrices\<close>

lemma ex_argmax: "argmax1 pred_ds_ex = Inr [0, 1, 0]" by code_simp
lemma ex_acc: "accuracy_score [0, 1, 0] [0, 1, 0] = Inr (Fl 1)" by code_simp
lemma ex_acc_b: "accuracy_score [0, 0, 0] [0, 1, 0] = Inr (Fl (2 / 3))" by code_simp
lemma ex_vstack: "np_vstack [pred_ood_ex, pred_ds_ex] = Inr (pred_ood_ex @ pred_ds_ex)" by code_simp
lemma ex_max_ds: "max1 pred_ds_ex = Inr [3 / 4, 2 / 3, 3 / 4]" by code_simp
lemma ex_percentile: "np_percentile [3 / 4, 2 / 3, 3 / 4] 5 = Inr (27 / 40)" by code_simp
lemma ex_labels: "replicate (length pred_ood_ex) 0 @ replicate (length pred_ds_ex) 1 = [0, 1, 1, 1 :: int]"
  by code_simp
lemma ex_any: "any_above (27 / 40) (pred_ood_ex @ pred_ds_ex) = [0, 1, 0, 1]" by code_simp
lemma ex_acc2: "accuracy_score [0, 1, 1, 1] [0, 1, 0, 1] = Inr (Fl (3 / 4))" by code_simp
lemma ex_max: "max1 (pred_ood_ex @ pred_ds_ex) = Inr [1 / 2, 3 / 4, 2 / 3, 3 / 4]" by code_simp
lemma ex_ood_auc: "roc_auc_score [0, 1, 1, 1] [1 / 2, 3 / 4, 2 / 3, 3 / 4] = Inr 1" by code_simp
lemma ex_guarded: "guarded_auc (not_equal [0, 1, 0] [0, 1, 0]) [3 / 4, 2 / 3, 3 / 4] = Inr (Fl (- 123456789))"
  by code_simp
lemma ex_guarded_b: "guarded_auc (not_equal [0, 0, 0] [0, 1, 0]) [3 / 4, 2 / 3, 3 / 4] = Inr (Fl 0)"
  by code_simp
lemma ex_fpr: "fpr95 [0, 1, 1, 1] [1 / 2, 3 / 4, 2 / 3, 3 / 4] = Inr (Fl 0)" by code_simp

lemmas ex_steps = ex_argmax ex_acc ex_acc_b ex_vstack ex_max_ds ex_percentile ex_labels ex_any ex_acc2
  ex_max ex_ood_auc ex_guarded ex_guarded_b ex_fpr

lemma or_raise_Inr [simp]: "or_raise (Inr v) k = k v"
  by (simp add: or_raise_def)

lemma or_raise_Inl [simp]: "or_raise (Inl e) k = Inl e"
  by (simp add: or_raise_def)

lemma odin_metrics_example: "odin_metrics pred_ds_ex pred_ood_ex [0, 1, 0] = Inr expected_result"
  by (simp add: odin_metrics_def expected_result_def ex_steps)

text \<open>With one wrong prediction among the three the guarded area is computed.\<close>

lemma odin_metrics_one_wrong:
  "odin_metrics pred_ds_ex pred_ood_ex [0, 0, 0] =
     Inr (expected_result
       (''classification error'' \<mapsto> Fl (1 / 3),
        ''AUC anomaly score and misclassification'' \<mapsto> Fl 0))"
  by (simp add: odin_metrics_def expected_result_def ex_steps) (rule ext, simp)

lemma ODIN_ds_pass_ex: "ODIN ds_pass linear_model unit_gradient 2 (3 / 10) = Inr pred_ds_ex"
  by (simp add: ODIN_ds_pass pred_ds_ex_def)

lemma ODIN_ood_pass_ex: "ODIN ood_pass linear_model unit_gradient 2 (3 / 10) = Inr pred_ood_ex"
  by (simp add: ODIN_ood_pass pred_ood_ex_def)

lemma hstack_ds: "np_hstack (map (\<lambda>(x, y, w). y) ds_pass) = Inr [0, 1, 0]"
  by (simp add: np_hstack_def ds_pass_def)

lemma run_restartable:
  "odin_results (restartable ds_pass) (restartable ood_pass) linear_model unit_gradient = Inr expected_result"
  by (simp add: odin_results_def iterate_def restartable_def ODIN_ds_pass_ex ODIN_ood_pass_ex hstack_ds
      odin_metrics_example)

lemma run_one_shot:
  "odin_results (one_shot ds_pass) (restartable ood_pass) linear_model unit_gradient = Inl ValueError"
  by (simp add: odin_results_def iterate_def restartable_def one_shot_def ODIN_ds_pass_ex ODIN_ood_pass_ex
      np_hstack_def)

subsection \<open>Classes, positives and the last point of the curve\<close>

lemma length_np_unique: "length (np_unique y) = card (set y)"
  by (simp add: np_unique_def length_remdups_card_conv)

lemma remdups_replicate: "remdups (replicate n x) = (if n = 0 then [] else [x])"
  by (induction n) auto

lemma np_unique_domain_labels:
  assumes "0 < n" and "0 < m"
  shows "np_unique (replicate n 0 @ replicate m 1) = [0, 1]"
proof -
  have "sorted (replicate n (0 :: int) @ replicate m 1)"
    by (simp add: sorted_append)
  then have "sort (replicate n (0 :: int) @ replicate m 1) = replicate n 0 @ replicate m 1"
    by (rule sorted_sort_id)
  moreover have "remdups (replicate n (0 :: int) @ replicate m 1) = [0, 1]"
  proof -
    have "remdups (replicate k (0 :: int) @ replicate m 1) = (if k = 0 then [1] else [0, 1])" for k
      using assms(2) by (induction k) (auto simp: remdups_replicate)
    with assms(1) show ?thesis by simp
  qed
  ultimately show ?thesis by (simp add: np_unique_def)
qed

lemma count_sorted_positives:
  assumes "length y_true = length y_score"
  shows "length (filter id (map fst (rev (sort_key snd (zip y_true y_score))))) = length (filter id y_true)"
proof -
  have "length (filter id (map fst (rev (sort_key snd (zip y_true y_score)))))
      = length (filter (id \<circ> fst) (rev (sort_key snd (zip y_true y_score))))"
    by (simp add: filter_map)
  also have "\<dots> = length (filter (id \<circ> fst) (sort_key snd (zip y_true y_score)))"
    by (simp only: rev_filter [symmetric] length_rev)
  also have "\<dots> = length (sort_key snd (filter (id \<circ> fst) (zip y_true y_score)))"
    by (simp only: filter_sort)
  also have "\<dots> = length (filter id (map fst (zip y_true y_score)))"
    by (simp add: filter_map)
  also have "\<dots> = length (filter id y_true)"
    using assms by simp
  finally show ?thesis .
qed

lemma binary_clf_curve_last_tps:
  assumes "binary_clf_curve y_true y_score = (fps, tps)" and "length y_true = length y_score"
  shows "last tps = length (filter id y_true)"
proof -
  define ys where "ys = map fst (rev (sort_key snd (zip y_true y_score)))"
  define sc where "sc = map snd (rev (sort_key snd (zip y_true y_score)))"
  define idxs where "idxs = filter (\<lambda>i. sc ! i \<noteq> sc ! (i + 1)) [0..<length sc - 1] @ [length ys - 1]"
  have tps: "tps = map (\<lambda>i. length (filter id (take (i + 1) ys))) idxs"
    using assms(1) by (simp_all add: binary_clf_curve_eq Let_def ys_def sc_def idxs_def)
  have "last tps = length (filter id (take (length ys - 1 + 1) ys))"
    by (simp add: tps idxs_def)
  also have "take (length ys - 1 + 1) ys = ys"
    by simp
  also have "length (filter id ys) = length (filter id y_true)"
    unfolding ys_def by (rule count_sorted_positives [OF assms(2)])
  finally show ?thesis .
qed

lemma last_filter_upt:
  assumes "0 < n" and "P (n - 1)"
  shows "last (filter P [0..<n]) = n - 1"
proof -
  from assms(1) obtain k where n: "n = Suc k" by (cases n) auto
  then show ?thesis using assms(2) by simp
qed

lemma roc_counts_last_tps:
  assumes c: "roc_counts y_true y_score = (fps, tps)" and len: "length y_true = length y_score"
  shows "last tps = length (filter id y_true)" and "tps \<noteq> []"
proof -
  obtain fps0 tps0 where b: "binary_clf_curve y_true y_score = (fps0, tps0)"
    by (cases "binary_clf_curve y_true y_score") auto
  define keep where "keep = (if 2 < length fps0 then optimal_idxs fps0 tps0 else [0..<length fps0])"
  have tps: "tps = 0 # map (\<lambda>i. tps0 ! i) keep"
    using c by (simp add: roc_counts_def b keep_def Let_def)
  show "tps \<noteq> []" by (simp add: tps)
  have eq: "length fps0 = length tps0"
    by (rule binary_clf_curve_props(2) [OF b])
  have n: "0 < length fps0"
    using binary_clf_curve_props(3) [OF b] by simp
  have "keep = filter (\<lambda>i. 2 < length fps0 \<longrightarrow> i = 0 \<or> i = length fps0 - 1
            \<or> second_diff fps0 (i - 1) \<noteq> 0 \<or> second_diff tps0 (i - 1) \<noteq> 0) [0..<length fps0]"
    by (simp add: keep_def optimal_idxs_def)
  then have lk: "last keep = length fps0 - 1" and ne: "keep \<noteq> []"
    using n by (auto simp: last_filter_upt filter_empty_conv intro!: bexI [of _ "length fps0 - 1"])
  have "last tps = tps0 ! (length tps0 - 1)"
    using ne lk eq by (simp add: tps last_map)
  also have "\<dots> = last tps0"
    using n eq by (simp add: last_conv_nth)
  also have "\<dots> = length (filter id y_true)"
    by (rule binary_clf_curve_last_tps [OF b len])
  finally show "last tps = length (filter id y_true)" .
qed

lemma rates_last_reaches:
  assumes "c \<noteq> []" and "0 < last c" and "t \<le> 1"
  shows "\<exists>v\<in>set (rates c). fl_ge v t"
proof -
  have "Fl (real (last c) / real (last c)) \<in> set (rates c)"
    using assms(1,2) by (auto simp: rates_def intro!: image_eqI [of _ _ "last c"])
  moreover have "fl_ge (Fl (real (last c) / real (last c))) t"
    using assms(2,3) by simp
  ultimately show ?thesis by blast
qed

lemma fpr95_domain_labels:
  assumes "0 < n" and "0 < m" and "length p = n + m"
  shows "\<exists>v. fpr95 (replicate n 0 @ replicate m 1) p = Inr v"
proof -
  let ?y = "replicate n (0 :: int) @ replicate m 1"
  obtain fps tps where c: "roc_counts (map (\<lambda>v. v = 1) ?y) p = (fps, tps)"
    by (cases "roc_counts (map (\<lambda>v. v = 1) ?y) p") auto
  have roc: "roc_curve ?y p = Inr (rates fps, rates tps)"
    using assms c by (simp add: roc_curve_def np_unique_domain_labels)
  have len: "length (map (\<lambda>v. v = 1) ?y) = length p"
    using assms by simp
  have "last tps = length (filter id (map (\<lambda>v. v = 1) ?y))"
    by (rule roc_counts_last_tps(1) [OF c len])
  also have "\<dots> = m"
    by (simp add: filter_map comp_def)
  finally have "0 < last tps" using assms(2) by simp
  from rates_last_reaches [OF roc_counts_last_tps(2) [OF c len] this, of "95 / 100"]
  have "first_index (\<lambda>t. fl_ge t (95 / 100)) (rates tps) \<noteq> None"
    by (simp add: first_index_None_iff)
  with roc show ?thesis
    by (auto simp: fpr95_def)
qed

lemma roc_auc_score_domain_labels:
  assumes "0 < n" and "0 < m" and "length p = n + m"
  shows "\<exists>a. roc_auc_score (replicate n 0 @ replicate m 1) p = Inr a"
  using assms by (simp add: roc_auc_score_def np_unique_domain_labels split: prod.splits)

lemma guarded_auc_single_class:
  assumes "set labels \<subseteq> {c}"
  shows "guarded_auc labels scores = Inr (Fl (- 123456789))"
proof -
  have "card (set labels) \<le> card {c}"
    by (rule card_mono) (use assms in auto)
  then have "length (np_unique labels) \<noteq> 2"
    by (simp add: length_np_unique)
  then have "roc_auc_score labels scores = Inl ValueError"
    by (simp add: roc_auc_score_def)
  then show ?thesis by (simp add: guarded_auc_def)
qed


subsection \<open>Successful runs of the aggregator\<close>

lemma np_vstack_pair:
  "np_vstack [a, b] = Inr p \<longleftrightarrow> same_width (a @ b) \<and> p = a @ b"
  by (auto simp: np_vstack_def)

lemma or_raiseE:
  assumes "or_raise r k = Inr v"
  obtains u where "r = Inr u" and "k u = Inr v"
  using assms by (auto simp: or_raise_Inr_iff)

lemma odin_metrics_InrD:
  assumes "odin_metrics pred_ds pred_ood y_true = Inr r"
  shows "\<exists>am acc anomaly_score threshold acc2 p ood_auc auc fpr.
        argmax1 pred_ds = Inr am \<and> accuracy_score y_true am = Inr acc \<and>
        same_width (pred_ood @ pred_ds) \<and>
        max1 pred_ds = Inr anomaly_score \<and> np_percentile anomaly_score 5 = Inr threshold \<and>
        accuracy_score (domain_labels pred_ood pred_ds) (any_above threshold (pred_ood @ pred_ds)) = Inr acc2 \<and>
        max1 (pred_ood @ pred_ds) = Inr p \<and>
        roc_auc_score (domain_labels pred_ood pred_ds) p = Inr ood_auc \<and>
        guarded_auc (not_equal y_true am) anomaly_score = Inr auc \<and>
        fpr95 (domain_labels pred_ood pred_ds) p = Inr fpr \<and>
        r = Map.empty
          (''classification error'' \<mapsto> one_minus acc,
           ''threshold_ood'' \<mapsto> Fl threshold,
           ''OOD error'' \<mapsto> one_minus acc2,
           ''OOD AUC'' \<mapsto> Fl ood_auc,
           ''AUC anomaly score and misclassification'' \<mapsto> auc,
           ''FPR at 95% TPR'' \<mapsto> fpr)"
  using assms unfolding odin_metrics_def Let_def domain_labels_def
  apply (elim or_raiseE)
  apply (simp only: np_vstack_pair sum.inject)
  apply (elim conjE)
  apply (intro exI conjI)
            apply (assumption | (simp only:) | rule sym)+
  done

lemma odin_metrics_InrI:
  assumes "argmax1 pred_ds = Inr am" and "accuracy_score y_true am = Inr acc"
    and "same_width (pred_ood @ pred_ds)"
    and "max1 pred_ds = Inr anomaly_score" and "np_percentile anomaly_score 5 = Inr threshold"
    and "accuracy_score (domain_labels pred_ood pred_ds) (any_above threshold (pred_ood @ pred_ds)) = Inr acc2"
    and "max1 (pred_ood @ pred_ds) = Inr p"
    and "roc_auc_score (domain_labels pred_ood pred_ds) p = Inr ood_auc"
    and "guarded_auc (not_equal y_true am) anomaly_score = Inr auc"
    and "fpr95 (domain_labels pred_ood pred_ds) p = Inr fpr"
  shows "odin_metrics pred_ds pred_ood y_true = Inr (Map.empty
          (''classification error'' \<mapsto> one_minus acc,
           ''threshold_ood'' \<mapsto> Fl threshold,
           ''OOD error'' \<mapsto> one_minus acc2,
           ''OOD AUC'' \<mapsto> Fl ood_auc,
           ''AUC anomaly score and misclassification'' \<mapsto> auc,
           ''FPR at 95% TPR'' \<mapsto> fpr))"
proof -
  have v: "np_vstack [pred_ood, pred_ds] = Inr (pred_ood @ pred_ds)"
    using assms(3) by (simp add: np_vstack_pair)
  show ?thesis
    unfolding odin_metrics_def Let_def
    using assms(6,8,10) unfolding domain_labels_def
    by (simp only: assms(1,2,4,5,7,9) v or_raise_Inr)
qed

lemma insert6_perm:
  "insert f (insert e (insert d (insert c (insert b (insert a {}))))) = insert b {a, c, d, e, f}"
  by blast

lemma dom_result:
  "dom (Map.empty
          (''classification error'' \<mapsto> a,
           ''threshold_ood'' \<mapsto> b,
           ''OOD error'' \<mapsto> c,
           ''OOD AUC'' \<mapsto> d,
           ''AUC anomaly score and misclassification'' \<mapsto> e,
           ''FPR at 95% TPR'' \<mapsto> f)) = stored_keys"
  unfolding stored_keys_def spec_keys_def
  by (simp only: dom_fun_upd dom_empty option.simps if_False insert6_perm)

lemma odin_results_Inr_iff:
  "odin_results ds ood model gradient = Inr r \<longleftrightarrow>
     (\<exists>pred_ds pred_ood y_true.
        ODIN (ds 0) model gradient 2 (3 / 10) = Inr pred_ds \<and>
        ODIN (ood 0) model gradient 2 (3 / 10) = Inr pred_ood \<and>
        np_hstack (map (\<lambda>(x, y, w). y) (ds 1)) = Inr y_true \<and>
        odin_metrics pred_ds pred_ood y_true = Inr r)"
  by (simp add: odin_results_def iterate_def or_raise_Inr_iff)


lemma threshold_not_spec_key: "''threshold_ood'' \<notin> spec_keys"
  by (simp add: spec_keys_def)

subsection \<open>Steps of the aggregator that cannot fail\<close>

lemma roc_auc_score_two_classes:
  assumes "roc_auc_score (domain_labels pred_ood pred_ds) p = Inr a"
  shows "pred_ood \<noteq> []" and "pred_ds \<noteq> []"
proof -
  from assms have c: "card (set (domain_labels pred_ood pred_ds)) = 2"
    by (auto simp: roc_auc_score_def length_np_unique split: if_splits)
  show "pred_ood \<noteq> []"
  proof
    assume "pred_ood = []"
    then have "set (domain_labels pred_ood pred_ds) \<subseteq> {1}"
      by (auto simp: domain_labels_def)
    then have "card (set (domain_labels pred_ood pred_ds)) \<le> card {1 :: int}"
      by (intro card_mono) auto
    with c show False by simp
  qed
  show "pred_ds \<noteq> []"
  proof
    assume "pred_ds = []"
    then have "set (domain_labels pred_ood pred_ds) \<subseteq> {0}"
      by (auto simp: domain_labels_def)
    then have "card (set (domain_labels pred_ood pred_ds)) \<le> card {0 :: int}"
      by (intro card_mono) auto
    with c show False by simp
  qed
qed

lemma max1_length: "max1 m = Inr c \<Longrightarrow> length c = length m"
  by (auto simp: max1_def dest: sequence_length)

lemma any_above_some:
  "any_above t pred = map (\<lambda>row. if \<exists>p\<in>set row. t < p then 1 else 0) pred"
  by (simp add: any_above_def list_ex_iff)

lemma ODIN_rows_nonempty:
  assumes run: "ODIN ds model gradient temperature epsilon = Inr m"
  shows "\<forall>row\<in>set m. row \<noteq> []"
proof
  fix row assume row: "row \<in> set m"
  from ODIN_Inr [OF run] obtain os where
    os: "map (\<lambda>b. ODIN_batch model gradient temperature epsilon (fst b)) ds = map Inr os"
    and m: "m = concat os" by blast
  from row m obtain o' where o': "o' \<in> set os" "row \<in> set o'" by auto
  then obtain i where i: "i < length os" "o' = os ! i" by (auto simp: in_set_conv_nth)
  have len: "length os = length ds" using os by (metis length_map)
  with i os have "ODIN_batch model gradient temperature epsilon (fst (ds ! i)) = Inr o'"
    by (metis nth_map)
  from ODIN_batch_Inr [OF this] obtain g where
    "softmax (scale (model (perturb (fst (ds ! i)) epsilon g)) temperature) = Inr o'" by blast
  from softmax_Inr(2) [OF this] o'(2) have "sum_list row = 1" by blast
  then show "row \<noteq> []" by auto
qed

lemma max1_nonempty:
  assumes "\<forall>row\<in>set m. row \<noteq> []"
  shows "\<exists>c. max1 m = Inr c"
  unfolding max1_def
  by (rule sequence_all_Inr) (use assms in \<open>auto simp: np_max_def\<close>)

lemma argmax1_length: "argmax1 m = Inr am \<Longrightarrow> length am = length m"
  by (auto simp: argmax1_def dest: sequence_length)

lemma accuracy_score_defined:
  assumes "length a = length b"
  shows "\<exists>acc. accuracy_score a b = Inr acc"
  using assms by (simp add: accuracy_score_def)

lemma np_percentile_defined: "c \<noteq> [] \<Longrightarrow> \<exists>t. np_percentile c 5 = Inr t"
  by (simp add: np_percentile_def Let_def)

lemma not_equal_all_right: "set (not_equal a a) \<subseteq> {0}"
  by (auto simp: not_equal_def in_set_zip)

lemma not_equal_all_wrong:
  assumes "\<forall>i<length b. a ! i \<noteq> b ! i"
  shows "set (not_equal a b) \<subseteq> {1}"
  using assms by (auto simp: not_equal_def in_set_zip)

section \<open>The scorer on an empty dataset\<close>

text \<open>
  Claim C9. On a dataset that yields no batch the scorer returns no matrix: the list of
  batch outputs stays empty, stacking it fails, and the scorer raises.
\<close>

theorem ODIN_empty_dataset_raises:
  "ODIN [] model gradient temperature epsilon = Inl ValueError"
  by (simp add: ODIN_def np_vstack_def)

theorem ODIN_empty_dataset_raises_witness:
  "ODIN [] linear_model unit_gradient 2 (3 / 10) = Inl ValueError"
  by (rule ODIN_empty_dataset_raises)

section \<open>The scorer reads the inputs only\<close>

text \<open>
  Claim C10. Two datasets that yield the same input tensors in the same batch order,
  whatever their labels and weights, get the same result from the scorer.
\<close>

theorem ODIN_reads_inputs_only:
  assumes "map fst ds1 = map fst ds2"
  shows "ODIN ds1 model gradient temperature epsilon = ODIN ds2 model gradient temperature epsilon"
proof -
  have "map (\<lambda>b. ODIN_batch model gradient temperature epsilon (fst b)) ds1
      = map (ODIN_batch model gradient temperature epsilon) (map fst ds1)"
    by simp
  also have "\<dots> = map (\<lambda>b. ODIN_batch model gradient temperature epsilon (fst b)) ds2"
    using assms by simp
  finally show ?thesis
    by (simp only: ODIN_sequence)
qed

theorem ODIN_reads_inputs_only_witness:
  "map fst pass_a = map fst pass_b \<and> pass_a \<noteq> pass_b
   \<and> ODIN pass_a linear_model unit_gradient 2 (3 / 10)
     = ODIN pass_b linear_model unit_gradient 2 (3 / 10)"
proof -
  have h: "map fst pass_a = map fst pass_b"
    by (simp add: pass_a_def pass_b_def)
  have d: "pass_a \<noteq> pass_b"
    by (simp add: pass_a_def pass_b_def)
  from h d ODIN_reads_inputs_only [OF h] show ?thesis
    by blast
qed

section \<open>The scorer without perturbation\<close>

text \<open>
  Claim C6. With epsilon = 0 the perturbed input is the input itself, so the scorer
  returns a matrix exactly when the temperature-scaled softmax of the model's scores on
  the unperturbed inputs is defined, and it is that matrix. The gradient is still
  computed, so it has to exist for every batch.
\<close>

theorem ODIN_epsilon_zero:
  assumes "\<forall>(x, y, w)\<in>set ds. \<forall>labels. tf_argmax (model x) = Inr labels \<longrightarrow>
      gradient (\<lambda>x'. sparse_categorical_crossentropy labels (scale (model x') temperature)) x \<noteq> None"
  shows "ODIN ds model gradient temperature 0 = Inr m
     \<longleftrightarrow> temperature_softmax ds model temperature = Inr m"
proof -
  have pointwise: "\<forall>b\<in>set ds. \<forall>v.
      ODIN_batch model gradient temperature 0 (fst b) = Inr v
      \<longleftrightarrow> softmax (scale (model (fst b)) temperature) = Inr v"
  proof (intro ballI allI iffI)
    fix b v assume "ODIN_batch model gradient temperature 0 (fst b) = Inr v"
    then show "softmax (scale (model (fst b)) temperature) = Inr v"
      by (rule ODIN_batch_zero_forward)
  next
    fix b v assume b: "b \<in> set ds" and s: "softmax (scale (model (fst b)) temperature) = Inr v"
    from b assms have "\<forall>labels. tf_argmax (model (fst b)) = Inr labels \<longrightarrow>
      gradient (\<lambda>x'. sparse_categorical_crossentropy labels (scale (model x') temperature)) (fst b) \<noteq> None"
      by (auto simp: case_prod_unfold)
    with s show "ODIN_batch model gradient temperature 0 (fst b) = Inr v"
      by (rule ODIN_batch_zero_backward)
  qed
  show ?thesis
    unfolding ODIN_sequence temperature_softmax_sequence or_raise_Inr_iff sequence_Inr_iff
    using map_Inr_cong [OF pointwise] by simp
qed

theorem ODIN_epsilon_zero_witness:
  "temperature_softmax pass_a linear_model 2 = Inr [[1 / 2, 1 / 2], [3 / 4, 1 / 4]]
   \<and> ODIN pass_a linear_model unit_gradient 2 0 = Inr [[1 / 2, 1 / 2], [3 / 4, 1 / 4]]"
proof -
  have g: "\<forall>(x, y, w)\<in>set pass_a. \<forall>labels. tf_argmax (linear_model x) = Inr labels \<longrightarrow>
      unit_gradient (\<lambda>x'. sparse_categorical_crossentropy labels (scale (linear_model x') 2)) x \<noteq> None"
    by (simp add: unit_gradient_def)
  have t: "temperature_softmax pass_a linear_model 2 = Inr [[1 / 2, 1 / 2], [3 / 4, 1 / 4]]"
    by (simp add: exp_minus_ln3 scorer_defs pass_a_def)
  from t ODIN_epsilon_zero [OF g, of "[[1 / 2, 1 / 2], [3 / 4, 1 / 4]]"] show ?thesis
    by blast
qed

section \<open>Shape and rows of the confidence matrix\<close>

text \<open>
  Claim C7. For a model that returns one row of scores per example, the matrix the
  scorer returns has as many rows as the batches it consumed have examples, and every
  row has non-negative entries whose sum is 1 within 1e-5.
\<close>

theorem ODIN_confidence_matrix:
  assumes run: "ODIN ds model gradient temperature epsilon = Inr m"
    and rows: "\<forall>x. length (model x) = length x"
  shows "length m = example_count ds
     \<and> (\<forall>row\<in>set m. (\<forall>p\<in>set row. 0 \<le> p) \<and> \<bar>sum_list row - 1\<bar> \<le> 1 / 100000)"
proof -
  from ODIN_Inr [OF run] obtain os where
    os: "map (\<lambda>b. ODIN_batch model gradient temperature epsilon (fst b)) ds = map Inr os"
    and m: "m = concat os" by blast
  have len: "length os = length ds" using os by (metis length_map)
  have batch: "ODIN_batch model gradient temperature epsilon (fst (ds ! i)) = Inr (os ! i)"
    if "i < length ds" for i
    using that os len by (metis nth_map)
  have each: "length (os ! i) = length (fst (ds ! i))
      \<and> (\<forall>row\<in>set (os ! i). (\<forall>p\<in>set row. 0 \<le> p) \<and> sum_list row = 1)"
    if "i < length ds" for i
  proof -
    from ODIN_batch_Inr [OF batch [OF that]] obtain g where
      s: "softmax (scale (model (perturb (fst (ds ! i)) epsilon g)) temperature) = Inr (os ! i)"
      by blast
    have "length (os ! i) = length (fst (ds ! i))"
      using softmax_Inr(1) [OF s] rows by (simp add: scale_def length_perturb)
    with softmax_Inr(2) [OF s] show ?thesis by blast
  qed
  have "map length os = map (\<lambda>b. length (fst b)) ds"
    by (rule nth_equalityI) (use len each in auto)
  then have "length m = sum_list (map (\<lambda>b. length (fst b)) ds)"
    by (simp add: m length_concat)
  also have "\<dots> = example_count ds"
    by (simp add: example_count_def case_prod_unfold)
  finally have count: "length m = example_count ds" .
  have "\<forall>row\<in>set m. (\<forall>p\<in>set row. 0 \<le> p) \<and> \<bar>sum_list row - 1\<bar> \<le> 1 / 100000"
  proof
    fix row assume "row \<in> set m"
    then obtain o' where "o' \<in> set os" "row \<in> set o'" by (auto simp: m)
    then obtain i where "i < length os" "o' = os ! i" by (auto simp: in_set_conv_nth)
    with each len \<open>row \<in> set o'\<close> have "(\<forall>p\<in>set row. 0 \<le> p) \<and> sum_list row = 1" by auto
    then show "(\<forall>p\<in>set row. 0 \<le> p) \<and> \<bar>sum_list row - 1\<bar> \<le> 1 / 100000" by simp
  qed
  with count show ?thesis by blast
qed

theorem ODIN_confidence_matrix_witness:
  "ODIN ds_pass linear_model unit_gradient 2 (3 / 10)
     = Inr [[3 / 4, 1 / 4], [1 / 3, 2 / 3], [3 / 4, 1 / 4]]
   \<and> (\<forall>x. length (linear_model x) = length x)
   \<and> example_count ds_pass = 3
   \<and> length [[3 / 4, 1 / 4], [1 / 3, 2 / 3], [3 / 4, 1 / 4 :: real]] = example_count ds_pass
   \<and> list_all (\<lambda>row. list_all (\<lambda>p. 0 \<le> p) row \<and> \<bar>sum_list row - 1\<bar> \<le> 1 / 100000)
        [[3 / 4, 1 / 4], [1 / 3, 2 / 3], [3 / 4, 1 / 4 :: real]]"
proof -
  have rows: "\<forall>x. length (linear_model x) = length x"
    by (simp add: linear_model_def)
  have c: "example_count ds_pass = 3"
    by (simp add: example_count_def ds_pass_def)
  from ODIN_confidence_matrix [OF ODIN_ds_pass rows] ODIN_ds_pass rows c show ?thesis
    by (simp only: list_all_iff) simp
qed

section \<open>The point of the curve that fpr95 reads\<close>

text \<open>
  Claim C3. When the curve computation returns a curve, fpr95 returns the
  false-positive rate at the first point, in the order of the curve, whose
  true-positive rate is at least 0.95; when no point of the curve has such a rate
  it raises IndexError, with no fallback value.
\<close>

theorem fpr95_first_point:
  assumes "roc_curve y_true y_pred = Inr (fpr, tpr)"
  shows "(first_reaching tpr (95 / 100) ix \<longrightarrow> fpr95 y_true y_pred = Inr (fpr ! ix))
     \<and> ((\<forall>i<length tpr. \<not> fl_ge (tpr ! i) (95 / 100)) \<longrightarrow> fpr95 y_true y_pred = Inl IndexError)"
proof (intro conjI impI)
  assume "first_reaching tpr (95 / 100) ix"
  then have "first_index (\<lambda>t. fl_ge t (95 / 100)) tpr = Some ix"
    by (simp add: first_index_Some_iff first_reaching_def)
  with assms show "fpr95 y_true y_pred = Inr (fpr ! ix)"
    by (simp add: fpr95_def)
next
  assume "\<forall>i<length tpr. \<not> fl_ge (tpr ! i) (95 / 100)"
  then have "first_index (\<lambda>t. fl_ge t (95 / 100)) tpr = None"
    by (auto simp: first_index_None_iff in_set_conv_nth)
  with assms show "fpr95 y_true y_pred = Inl IndexError"
    by (simp add: fpr95_def)
qed

theorem fpr95_first_point_witness:
  "fpr95 four_labels four_scores = Inr (Fl (1 / 2))
   \<and> fpr95 three_labels three_scores = Inl IndexError"
proof -
  have a: "first_reaching [Fl 0, Fl (1 / 2), Fl (1 / 2), Fl 1, Fl 1] (95 / 100) 3"
    by (simp add: first_reaching_def numeral_3_eq_3 less_Suc_eq)
  have b: "\<forall>i<length [NaN, NaN, NaN]. \<not> fl_ge ([NaN, NaN, NaN] ! i) (95 / 100)"
    by (simp add: numeral_3_eq_3 less_Suc_eq)
  from fpr95_first_point [OF roc_curve_four, of 3] a
    fpr95_first_point [OF roc_curve_three, of 0] b
  show ?thesis
    by simp
qed

section \<open>Raising the target rate\<close>

text \<open>
  Claim C8. For fixed labels and scores, the false-positive rate read at the first
  point that reaches a target true-positive rate does not decrease when the target is
  raised: the rate read for the higher target is the same or greater. Here
  \<open>fpr95\<close> is \<open>fpr_at_tpr\<close> at the target 0.95.
\<close>

theorem fpr_monotone_in_target:
  assumes le: "t1 \<le> t2"
    and a: "fpr_at_tpr t1 y_true y_pred = Inr a"
    and b: "fpr_at_tpr t2 y_true y_pred = Inr b"
  shows "a = b \<or> fl_lt a b"
proof -
  from a obtain fpr tpr where roc: "roc_curve y_true y_pred = Inr (fpr, tpr)"
    by (auto simp: fpr_at_tpr_def split: sum.splits)
  from a roc obtain i where i: "first_index (\<lambda>t. fl_ge t t1) tpr = Some i" and ai: "a = fpr ! i"
    by (auto simp: fpr_at_tpr_def split: option.splits)
  from b roc obtain j where j: "first_index (\<lambda>t. fl_ge t t2) tpr = Some j" and bj: "b = fpr ! j"
    by (auto simp: fpr_at_tpr_def split: option.splits)
  from roc_curve_Inr [OF roc] obtain fps tps where
    c: "roc_counts (map (\<lambda>v. v = 1) y_true) y_pred = (fps, tps)"
    and fpr: "fpr = rates fps" and tpr: "tpr = rates tps" by blast
  have ge: "fl_ge v t1" if "fl_ge v t2" for v
    using that le by (cases v) auto
  from j have jj: "j < length tpr" "fl_ge (tpr ! j) t2"
    by (simp_all add: first_index_Some_iff)
  have "i \<le> j"
  proof (rule ccontr)
    assume "\<not> i \<le> j"
    then have "j < i" by simp
    with i have "\<not> fl_ge (tpr ! j) t1" by (simp add: first_index_Some_iff)
    with ge jj show False by blast
  qed
  moreover have "j < length fps"
    using jj roc_counts_props(2) [OF c] by (simp add: tpr rates_length)
  ultimately show ?thesis
    unfolding ai bj fpr by (intro rates_mono roc_counts_props(1) [OF c])
qed

theorem fpr_monotone_in_target_witness:
  "(1 / 2 :: real) \<le> 95 / 100
   \<and> fpr_at_tpr (1 / 2) four_labels four_scores = Inr (Fl 0)
   \<and> fpr_at_tpr (95 / 100) four_labels four_scores = Inr (Fl (1 / 2))
   \<and> fl_lt (Fl 0) (Fl (1 / 2))"
proof -
  have le: "(1 / 2 :: real) \<le> 95 / 100" by simp
  have a: "fpr_at_tpr (1 / 2) four_labels four_scores = Inr (Fl 0)"
    by code_simp
  have b: "fpr_at_tpr (95 / 100) four_labels four_scores = Inr (Fl (1 / 2))"
    by code_simp
  from fpr_monotone_in_target [OF le a b] le a b show ?thesis
    by simp
qed

section \<open>The keys of the result mapping\<close>

text \<open>
  Claim C1, as amended. Every successful run returns a mapping with exactly six
  entries: the five named metrics and the threshold, which line 84 stores under
  \<^verbatim>\<open>threshold_ood\<close>.
\<close>

theorem result_keys:
  assumes "odin_results ds ood model gradient = Inr r"
  shows "dom r = stored_keys"
proof -
  from assms obtain pred_ds pred_ood y_true where "odin_metrics pred_ds pred_ood y_true = Inr r"
    by (auto simp: odin_results_Inr_iff)
  from odin_metrics_InrD [OF this] obtain a b c d e f where
    "r = Map.empty
          (''classification error'' \<mapsto> a,
           ''threshold_ood'' \<mapsto> b,
           ''OOD error'' \<mapsto> c,
           ''OOD AUC'' \<mapsto> d,
           ''AUC anomaly score and misclassification'' \<mapsto> e,
           ''FPR at 95% TPR'' \<mapsto> f)"
    by blast
  then show ?thesis
    by (simp only: dom_result)
qed

theorem result_keys_witness:
  "odin_results (restartable ds_pass) (restartable ood_pass) linear_model unit_gradient = Inr expected_result
   \<and> dom expected_result = stored_keys"
  using result_keys [OF run_restartable] run_restartable by simp

text \<open>The example run returns an entry that is not among the five names.\<close>

theorem five_keys_counterexample:
  "odin_results (restartable ds_pass) (restartable ood_pass) linear_model unit_gradient = Inr expected_result
   \<and> expected_result ''threshold_ood'' = Some (Fl (27 / 40))
   \<and> dom expected_result \<noteq> spec_keys"
proof -
  have t: "expected_result ''threshold_ood'' = Some (Fl (27 / 40))"
    by (simp add: expected_result_def)
  then have "''threshold_ood'' \<in> dom expected_result" by blast
  with threshold_not_spec_key have "dom expected_result \<noteq> spec_keys" by blast
  with run_restartable t show ?thesis by simp
qed

section \<open>The ground-truth labels\<close>

text \<open>
  Claim C2, as amended. The labels come from a second pass over the loaded
  in-distribution dataset, after the scorer's pass: in every successful run that pass
  yields at least one batch, and the classification error is 1 minus the accuracy of
  the row-wise argmax of the confidence matrix against the concatenated labels of the
  batches of that second pass.
\<close>

theorem labels_from_second_pass:
  assumes "odin_results ds ood model gradient = Inr r"
  shows "\<exists>pred_ds am acc.
      ODIN (ds 0) model gradient 2 (3 / 10) = Inr pred_ds \<and> argmax1 pred_ds = Inr am
      \<and> ds 1 \<noteq> []
      \<and> accuracy_score (concat (map (\<lambda>(x, y, w). y) (ds 1))) am = Inr acc
      \<and> r ''classification error'' = Some (one_minus acc)"
proof -
  from assms obtain pred_ds pred_ood y_true where
    s: "ODIN (ds 0) model gradient 2 (3 / 10) = Inr pred_ds"
    and h: "np_hstack (map (\<lambda>(x, y, w). y) (ds 1)) = Inr y_true"
    and m: "odin_metrics pred_ds pred_ood y_true = Inr r"
    by (auto simp: odin_results_Inr_iff)
  from h have ne: "ds 1 \<noteq> []" and y: "y_true = concat (map (\<lambda>(x, y, w). y) (ds 1))"
    by (auto simp: np_hstack_def split: if_splits)
  from odin_metrics_InrD [OF m] obtain am acc where
    "argmax1 pred_ds = Inr am" "accuracy_score y_true am = Inr acc"
    "r ''classification error'' = Some (one_minus acc)"
    by auto
  with s ne y show ?thesis by blast
qed

theorem labels_from_second_pass_witness:
  "odin_results (restartable ds_pass) (restartable ood_pass) linear_model unit_gradient = Inr expected_result
   \<and> (\<exists>pred_ds am acc.
      ODIN (restartable ds_pass 0) linear_model unit_gradient 2 (3 / 10) = Inr pred_ds
      \<and> argmax1 pred_ds = Inr am
      \<and> restartable ds_pass 1 \<noteq> []
      \<and> accuracy_score (concat (map (\<lambda>(x, y, w). y) (restartable ds_pass 1))) am = Inr acc
      \<and> expected_result ''classification error'' = Some (one_minus acc))"
  using labels_from_second_pass [OF run_restartable] run_restartable by blast

text \<open>
  On a one-shot iterable the scorer's pass succeeds and the second pass yields no
  batch: the labels cannot be stacked and the evaluation raises.
\<close>

theorem one_shot_dataset_counterexample:
  "ODIN (one_shot ds_pass 0) linear_model unit_gradient 2 (3 / 10) = Inr pred_ds_ex
   \<and> odin_results (one_shot ds_pass) (restartable ood_pass) linear_model unit_gradient = Inl ValueError"
  using ODIN_ds_pass_ex run_one_shot by (simp add: one_shot_def)

section \<open>The out-of-distribution error\<close>

text \<open>
  Claim C5. In every successful run the combined matrix is the out-of-distribution
  matrix followed by the in-distribution matrix, with domain label 0 for every row of
  the former and 1 for every row of the latter; the threshold is the 5th percentile of
  the row maxima of the in-distribution matrix; a combined row is predicted
  in-distribution (1) exactly when some entry of the row is strictly above the
  threshold; and the stored \<^verbatim>\<open>OOD error\<close> is 1 minus the accuracy of that prediction
  against the domain labels.
\<close>

theorem ood_error_rule:
  assumes "odin_results ds ood model gradient = Inr r"
  shows "\<exists>pred_ds pred_ood conf t acc.
      ODIN (ds 0) model gradient 2 (3 / 10) = Inr pred_ds
    \<and> ODIN (ood 0) model gradient 2 (3 / 10) = Inr pred_ood
    \<and> max1 pred_ds = Inr conf \<and> np_percentile conf 5 = Inr t
    \<and> accuracy_score (replicate (length pred_ood) 0 @ replicate (length pred_ds) 1)
         (map (\<lambda>row. if \<exists>p\<in>set row. t < p then 1 else 0) (pred_ood @ pred_ds)) = Inr acc
    \<and> r ''OOD error'' = Some (one_minus acc)"
proof -
  from assms obtain pred_ds pred_ood y_true where
    s1: "ODIN (ds 0) model gradient 2 (3 / 10) = Inr pred_ds"
    and s2: "ODIN (ood 0) model gradient 2 (3 / 10) = Inr pred_ood"
    and m: "odin_metrics pred_ds pred_ood y_true = Inr r"
    by (auto simp: odin_results_Inr_iff)
  from odin_metrics_InrD [OF m] obtain conf threshold acc2 where
    c: "max1 pred_ds = Inr conf" and t: "np_percentile conf 5 = Inr threshold"
    and a: "accuracy_score (domain_labels pred_ood pred_ds) (any_above threshold (pred_ood @ pred_ds)) = Inr acc2"
    and r: "r ''OOD error'' = Some (one_minus acc2)"
    by auto
  from s1 s2 c t a r show ?thesis
    unfolding any_above_some domain_labels_def by blast
qed

theorem ood_error_rule_witness:
  "odin_results (restartable ds_pass) (restartable ood_pass) linear_model unit_gradient = Inr expected_result
   \<and> ODIN (restartable ds_pass 0) linear_model unit_gradient 2 (3 / 10) = Inr pred_ds_ex
   \<and> ODIN (restartable ood_pass 0) linear_model unit_gradient 2 (3 / 10) = Inr pred_ood_ex
   \<and> np_percentile [3 / 4, 2 / 3, 3 / 4] 5 = Inr (27 / 40)
   \<and> expected_result ''OOD error'' = Some (Fl (1 / 4))
   \<and> (\<exists>conf t acc. max1 pred_ds_ex = Inr conf \<and> np_percentile conf 5 = Inr t
    \<and> accuracy_score (replicate (length pred_ood_ex) 0 @ replicate (length pred_ds_ex) 1)
         (map (\<lambda>row. if \<exists>p\<in>set row. t < p then 1 else 0) (pred_ood_ex @ pred_ds_ex)) = Inr acc
    \<and> expected_result ''OOD error'' = Some (one_minus acc))"
proof -
  have a: "ODIN (restartable ds_pass 0) linear_model unit_gradient 2 (3 / 10) = Inr pred_ds_ex"
    by (simp add: restartable_def ODIN_ds_pass_ex)
  have b: "ODIN (restartable ood_pass 0) linear_model unit_gradient 2 (3 / 10) = Inr pred_ood_ex"
    by (simp add: restartable_def ODIN_ood_pass_ex)
  have c: "expected_result ''OOD error'' = Some (Fl (1 / 4))"
    by (simp add: expected_result_def)
  from ood_error_rule [OF run_restartable] a b c ex_percentile run_restartable show ?thesis
    by auto
qed

section \<open>The guarded area computation\<close>

text \<open>
  Claim C4. Suppose the two scorer passes return matrices of the same width with at
  least one row each, and the label pass returns as many labels as the
  in-distribution matrix has rows. If every prediction is right, or every prediction
  is wrong, the evaluation does not raise. It returns a result that holds the
  sentinel -123456789 under \<^verbatim>\<open>AUC anomaly score and misclassification\<close>, and every
  other metric is computed and stored as in a run without the exception: the
  classification error from the accuracy of the predicted classes, the percentile
  threshold, the out-of-distribution error and area from the stacked matrix and the
  domain labels, and, after the sentinel, the false-positive rate that
  \<^verbatim>\<open>fpr95\<close> reads from the domain labels and the row maxima of the stacked matrix.
  The result has no other entry.
\<close>

theorem degenerate_auc_sentinel:
  assumes s1: "ODIN (ds 0) model gradient 2 (3 / 10) = Inr pred_ds"
    and s2: "ODIN (ood 0) model gradient 2 (3 / 10) = Inr pred_ood"
    and width: "same_width (pred_ood @ pred_ds)"
    and ne: "pred_ood \<noteq> []" "pred_ds \<noteq> []"
    and pass: "ds 1 \<noteq> []"
    and y: "y_true = concat (map (\<lambda>(x, y, w). y) (ds 1))"
    and len: "length y_true = length pred_ds"
    and am: "argmax1 pred_ds = Inr am"
    and degenerate: "y_true = am \<or> (\<forall>i<length am. y_true ! i \<noteq> am ! i)"
  shows "\<exists>r acc conf threshold acc2 p ood_auc fpr.
       odin_results ds ood model gradient = Inr r
     \<and> accuracy_score y_true am = Inr acc
     \<and> max1 pred_ds = Inr conf
     \<and> np_percentile conf 5 = Inr threshold
     \<and> accuracy_score (domain_labels pred_ood pred_ds)
          (any_above threshold (pred_ood @ pred_ds)) = Inr acc2
     \<and> max1 (pred_ood @ pred_ds) = Inr p
     \<and> roc_auc_score (domain_labels pred_ood pred_ds) p = Inr ood_auc
     \<and> fpr95 (domain_labels pred_ood pred_ds) p = Inr fpr
     \<and> r ''classification error'' = Some (one_minus acc)
     \<and> r ''threshold_ood'' = Some (Fl threshold)
     \<and> r ''OOD error'' = Some (one_minus acc2)
     \<and> r ''OOD AUC'' = Some (Fl ood_auc)
     \<and> r ''AUC anomaly score and misclassification'' = Some (Fl (- 123456789))
     \<and> r ''FPR at 95% TPR'' = Some fpr
     \<and> dom r = stored_keys"
proof -
  have rows_ds: "\<forall>row\<in>set pred_ds. row \<noteq> []" by (rule ODIN_rows_nonempty [OF s1])
  have rows_ood: "\<forall>row\<in>set pred_ood. row \<noteq> []" by (rule ODIN_rows_nonempty [OF s2])
  have h: "np_hstack (map (\<lambda>(x, y, w). y) (ds 1)) = Inr y_true"
    using pass y by (simp add: np_hstack_def)
  have "length y_true = length am" using len argmax1_length [OF am] by simp
  from accuracy_score_defined [OF this] obtain acc where
    acc: "accuracy_score y_true am = Inr acc" by blast
  from max1_nonempty [OF rows_ds] obtain conf where conf: "max1 pred_ds = Inr conf" by blast
  have "conf \<noteq> []" using ne(2) max1_length [OF conf] by auto
  from np_percentile_defined [OF this] obtain threshold where
    thr: "np_percentile conf 5 = Inr threshold" by blast
  have "length (domain_labels pred_ood pred_ds) = length (any_above threshold (pred_ood @ pred_ds))"
    by (simp add: domain_labels_def any_above_def)
  from accuracy_score_defined [OF this] obtain acc2 where
    acc2: "accuracy_score (domain_labels pred_ood pred_ds) (any_above threshold (pred_ood @ pred_ds)) = Inr acc2"
    by blast
  have "\<forall>row\<in>set (pred_ood @ pred_ds). row \<noteq> []" using rows_ds rows_ood by auto
  from max1_nonempty [OF this] obtain p where p: "max1 (pred_ood @ pred_ds) = Inr p" by blast
  have lp: "length p = length pred_ood + length pred_ds"
    using max1_length [OF p] by simp
  have pos: "0 < length pred_ood" "0 < length pred_ds" using ne by simp_all
  from roc_auc_score_domain_labels [OF pos lp] obtain ood_auc where
    ood_auc: "roc_auc_score (domain_labels pred_ood pred_ds) p = Inr ood_auc"
    unfolding domain_labels_def by blast
  from degenerate have "set (not_equal y_true am) \<subseteq> {0} \<or> set (not_equal y_true am) \<subseteq> {1}"
    using not_equal_all_right [of am] not_equal_all_wrong [of am y_true] by blast
  then have g: "guarded_auc (not_equal y_true am) conf = Inr (Fl (- 123456789))"
    using guarded_auc_single_class by blast
  from fpr95_domain_labels [OF pos lp] obtain fpr where
    fpr: "fpr95 (domain_labels pred_ood pred_ds) p = Inr fpr"
    unfolding domain_labels_def by blast
  let ?r = "Map.empty
          (''classification error'' \<mapsto> one_minus acc,
           ''threshold_ood'' \<mapsto> Fl threshold,
           ''OOD error'' \<mapsto> one_minus acc2,
           ''OOD AUC'' \<mapsto> Fl ood_auc,
           ''AUC anomaly score and misclassification'' \<mapsto> Fl (- 123456789),
           ''FPR at 95% TPR'' \<mapsto> fpr)"
  have "odin_metrics pred_ds pred_ood y_true = Inr ?r"
    by (rule odin_metrics_InrI [OF am acc width conf thr acc2 p ood_auc g fpr])
  with s1 s2 h have run: "odin_results ds ood model gradient = Inr ?r"
    unfolding odin_results_Inr_iff by blast
  have e1: "?r ''classification error'' = Some (one_minus acc)" by simp
  have e2: "?r ''threshold_ood'' = Some (Fl threshold)" by simp
  have e3: "?r ''OOD error'' = Some (one_minus acc2)" by simp
  have e4: "?r ''OOD AUC'' = Some (Fl ood_auc)" by simp
  have e5: "?r ''AUC anomaly score and misclassification'' = Some (Fl (- 123456789))" by simp
  have e6: "?r ''FPR at 95% TPR'' = Some fpr" by simp
  have d: "dom ?r = stored_keys" by (rule dom_result)
  show ?thesis
    apply (rule exI [of _ ?r], rule exI [of _ acc], rule exI [of _ conf],
        rule exI [of _ threshold], rule exI [of _ acc2], rule exI [of _ p],
        rule exI [of _ ood_auc], rule exI [of _ fpr])
    apply (intro conjI)
                  apply (rule run acc conf thr acc2 p ood_auc fpr e1 e2 e3 e4 e5 e6 d)+
    done
qed

theorem degenerate_auc_sentinel_witness:
  "argmax1 pred_ds_ex = Inr [0, 1, 0]
   \<and> concat (map (\<lambda>(x, y, w). y) (restartable ds_pass 1)) = [0, 1, 0]
   \<and> fpr95 (domain_labels pred_ood_ex pred_ds_ex) [1 / 2, 3 / 4, 2 / 3, 3 / 4] = Inr (Fl 0)
   \<and> (\<exists>r. odin_results (restartable ds_pass) (restartable ood_pass) linear_model unit_gradient = Inr r
     \<and> r ''classification error'' = Some (Fl 0)
     \<and> r ''threshold_ood'' = Some (Fl (27 / 40))
     \<and> r ''OOD error'' = Some (Fl (1 / 4))
     \<and> r ''OOD AUC'' = Some (Fl 1)
     \<and> r ''AUC anomaly score and misclassification'' = Some (Fl (- 123456789))
     \<and> r ''FPR at 95% TPR'' = Some (Fl 0)
     \<and> dom r = stored_keys)"
proof -
  have s1: "ODIN (restartable ds_pass 0) linear_model unit_gradient 2 (3 / 10) = Inr pred_ds_ex"
    by (simp add: restartable_def ODIN_ds_pass_ex)
  have s2: "ODIN (restartable ood_pass 0) linear_model unit_gradient 2 (3 / 10) = Inr pred_ood_ex"
    by (simp add: restartable_def ODIN_ood_pass_ex)
  have width: "same_width (pred_ood_ex @ pred_ds_ex)"
    by (simp add: same_width_def pred_ood_ex_def pred_ds_ex_def)
  have ne: "pred_ood_ex \<noteq> []" "pred_ds_ex \<noteq> []"
    by (simp_all add: pred_ood_ex_def pred_ds_ex_def)
  have pass: "restartable ds_pass 1 \<noteq> []"
    by (simp add: restartable_def ds_pass_def)
  have y: "[0, 1, 0] = concat (map (\<lambda>(x, y, w). y) (restartable ds_pass 1))"
    by (simp add: restartable_def ds_pass_def)
  have len: "length [0, 1, 0 :: int] = length pred_ds_ex"
    by (simp add: pred_ds_ex_def)
  have d: "[0, 1, 0] = [0, 1, 0 :: int] \<or> (\<forall>i<length [0, 1, 0 :: int]. [0, 1, 0 :: int] ! i \<noteq> [0, 1, 0] ! i)"
    by simp
  have l: "domain_labels pred_ood_ex pred_ds_ex = [0, 1, 1, 1]"
    by (simp only: domain_labels_def ex_labels)
  from degenerate_auc_sentinel [where ds = "restartable ds_pass" and ood = "restartable ood_pass",
      OF s1 s2 width ne pass y len ex_argmax d]
  obtain r acc conf threshold acc2 p ood_auc fpr where
    run: "odin_results (restartable ds_pass) (restartable ood_pass) linear_model unit_gradient = Inr r"
    and acc: "accuracy_score [0, 1, 0] [0, 1, 0] = Inr acc"
    and conf: "max1 pred_ds_ex = Inr conf"
    and thr: "np_percentile conf 5 = Inr threshold"
    and acc2: "accuracy_score (domain_labels pred_ood_ex pred_ds_ex)
          (any_above threshold (pred_ood_ex @ pred_ds_ex)) = Inr acc2"
    and p: "max1 (pred_ood_ex @ pred_ds_ex) = Inr p"
    and ood_auc: "roc_auc_score (domain_labels pred_ood_ex pred_ds_ex) p = Inr ood_auc"
    and fpr: "fpr95 (domain_labels pred_ood_ex pred_ds_ex) p = Inr fpr"
    and e: "r ''classification error'' = Some (one_minus acc)"
      "r ''threshold_ood'' = Some (Fl threshold)"
      "r ''OOD error'' = Some (one_minus acc2)"
      "r ''OOD AUC'' = Some (Fl ood_auc)"
      "r ''AUC anomaly score and misclassification'' = Some (Fl (- 123456789))"
      "r ''FPR at 95% TPR'' = Some fpr"
    and dom: "dom r = stored_keys"
    by blast
  from acc have v1: "acc = Fl 1" by (simp add: ex_acc)
  from conf have v2: "conf = [3 / 4, 2 / 3, 3 / 4]" by (simp add: ex_max_ds)
  from thr have v3: "threshold = 27 / 40" by (simp add: v2 ex_percentile)
  from acc2 have v4: "acc2 = Fl (3 / 4)" by (simp add: v3 l ex_any ex_acc2)
  from p have v5: "p = [1 / 2, 3 / 4, 2 / 3, 3 / 4]" by (simp add: ex_max)
  from ood_auc have v6: "ood_auc = 1" by (simp add: v5 l ex_ood_auc)
  from fpr have v7: "fpr = Fl 0" by (simp add: v5 l ex_fpr)
  have f: "fpr95 (domain_labels pred_ood_ex pred_ds_ex) [1 / 2, 3 / 4, 2 / 3, 3 / 4] = Inr (Fl 0)"
    by (simp only: l ex_fpr)
  have o1: "one_minus (Fl 1) = Fl 0" by simp
  have o2: "one_minus (Fl (3 / 4)) = Fl (1 / 4)" by simp
  note e' = e [unfolded v1 v3 v4 v6 v7 o1 o2]
  show ?thesis
    apply (intro conjI)
      apply (rule ex_argmax)
     apply (rule y [symmetric])
    apply (rule f)
    apply (rule exI [of _ r])
    apply (intro conjI)
          apply (rule run e' dom)+
    done
qed

end
